theory Spec2Isabelle
  imports Complex_Main "HOL-Library.AList" "HOL-Library.Sublist"
begin

section \<open>Python values and builtins used by the scripts\<close>

text \<open>
  A Python \<open>str\<close> is modelled as a \<open>string\<close> with one \<open>char\<close> per code point, so
  \<open>length\<close>, \<open>take\<close> and \<open>@\<close> are \<open>len\<close>, slicing and \<open>+\<close>; the texts of the model
  are those over the code points below 256. Letters beyond ASCII in the scripts' literals
  (the accented vowels of Spanish) are written by their code point, \<open>CHR 0xF3\<close>.

  An exception that is an instance of \<open>Exception\<close> is a value of \<open>exn\<close>; a call that may
  raise returns \<open>exn + 'a\<close>. \<open>RemoteError\<close> is whatever a client library raises (network,
  authentication, API error), with its message. A keyboard interrupt is not an
  \<open>Exception\<close>; it is delivered at the prompt, where the scripts wait, and is an input
  event of the main loops below.
\<close>

datatype exn =
    RemoteError string
  | KeyError string
  | IndexError string
  | AttributeError string
  | TypeError string
  | EOFError

text \<open>\<open>str(e)\<close>, as an f-string prints an exception.\<close>

fun exn_str :: "exn \<Rightarrow> string" where
  "exn_str (RemoteError m) = m"
| "exn_str (KeyError k) = [CHR 0x27] @ k @ [CHR 0x27]"
| "exn_str (IndexError m) = m"
| "exn_str (AttributeError m) = m"
| "exn_str (TypeError m) = m"
| "exn_str EOFError = ''EOF when reading a line''"

definition nl :: char where
  "nl = CHR 0x0A"

text \<open>\<open>str.isspace\<close> on one code point below 256.\<close>

definition isspace :: "char \<Rightarrow> bool" where
  "isspace c = ((of_char c :: nat) \<in> {9, 10, 11, 12, 13, 28, 29, 30, 31, 32, 133, 160})"

definition strip :: "string \<Rightarrow> string" where
  "strip s = rev (dropWhile isspace (rev (dropWhile isspace s)))"

text \<open>\<open>str.lower\<close>: the capitals of ASCII and of Latin-1 (all of 0xC0..0xDE but the
  multiplication sign) move up by 32, which sets the bit of weight 32.\<close>

definition lower_char :: "char \<Rightarrow> char" where
  "lower_char c =
     (let n = (of_char c :: nat)
      in if (65 \<le> n \<and> n \<le> 90) \<or> (192 \<le> n \<and> n \<le> 222 \<and> n \<noteq> 215)
         then (case c of Char b0 b1 b2 b3 b4 b5 b6 b7 \<Rightarrow> Char b0 b1 b2 b3 b4 True b6 b7)
         else c)"

definition lower :: "string \<Rightarrow> string" where
  "lower s = map lower_char s"

text \<open>\<open>sep.join(xs)\<close>.\<close>

fun join :: "string \<Rightarrow> string list \<Rightarrow> string" where
  "join sep [] = []"
| "join sep [x] = x"
| "join sep (x # y # ys) = x @ sep @ join sep (y # ys)"

text \<open>The format specification \<open><n\<close> on a \<open>str\<close>: pad on the right to width \<open>n\<close>.\<close>

definition ljust :: "nat \<Rightarrow> string \<Rightarrow> string" where
  "ljust n s = s @ replicate (n - length s) CHR '' ''"

text \<open>
  A score is the rational a float denotes. \<open>round(x, 2)\<close> rounds to the nearest hundredth,
  a tie to the even one.
\<close>

definition round2 :: "rat \<Rightarrow> rat" where
  "round2 x =
     (let y = x * 100; f = \<lfloor>y\<rfloor>; d = y - of_int f
      in of_int (if d < 1 / 2 then f else if 1 / 2 < d then f + 1
                 else if even f then f else f + 1) / 100)"

text \<open>\<open>d.get(key, default)\<close> on a looked-up key.\<close>

definition get_or :: "'a option \<Rightarrow> 'a \<Rightarrow> 'a" where
  "get_or v d = (case v of None \<Rightarrow> d | Some x \<Rightarrow> x)"

section \<open>Data model\<close>

text \<open>A message of the conversation history, the dict \<open>{"role": ..., "content": ...}\<close>.\<close>

record message =
  role :: string
  content :: string

text \<open>
  A raw hit of the vector store's search reply, \<open>{"_id", "_score", "fields": {"category",
  "chunk_text"}}\<close>, each key present (with a value of its type) or missing.
  \<open>Malformed e\<close> stands for a hit that the script at hand cannot read (it is no mapping,
  its \<open>fields\<close> are no mapping, its score is no number): reading it raises \<open>e\<close>.
  \<open>BadPayload e\<close> is a reply in which \<open>results["result"]["hits"]\<close> raises \<open>e\<close>.
\<close>

record fields =
  f_category :: "string option"
  f_chunk_text :: "string option"

record hit =
  h_id :: "string option"
  h_score :: "rat option"
  h_fields :: "fields option"

datatype raw_hit = Hit hit | Malformed exn

datatype payload = Hits "raw_hit list" | BadPayload exn

text \<open>The normalized record \<open>{"id", "score", "category", "text"}\<close> of \<open>cv_agent.py\<close>.\<close>

record entry =
  e_id :: string
  e_score :: rat
  e_category :: string
  e_text :: string

text \<open>
  A chunk of a streamed completion: \<open>Delta c\<close> carries \<open>choices[0].delta.content = c\<close>
  (\<open>None\<close> or a fragment); on \<open>BadChunk e\<close> reading \<open>chunk.choices[0].delta\<close> raises \<open>e\<close>;
  \<open>StreamFail e\<close> is the stream's iterator raising \<open>e\<close> (the connection broke).
  A choice of a buffered completion has a \<open>message\<close>, or a \<open>delta\<close>, or neither (then its
  \<open>str()\<close> is used).
\<close>

datatype stream_item = Delta "string option" | BadChunk exn | StreamFail exn

datatype choice = MessageChoice "string option" | DeltaChoice "string option" | OtherChoice string

section \<open>The remote services and the observable trace\<close>

text \<open>
  The services are functions of the time of the call, counted in remote calls made so far,
  so that the same request may be answered differently later.
  \<open>open_index\<close> is \<open>Pinecone.Index(name)\<close> (\<open>Some e\<close>: it raises), \<open>search\<close> takes the index
  name, the query text and \<open>top_k\<close>, \<open>complete\<close> is the buffered and \<open>complete_stream\<close> the
  streamed chat completion. \<open>create_index\<close> is \<open>create_index_for_model\<close>;
  \<open>upsert_records w t index n chunk\<close> sends the record with \<open>_id\<close> \<open>cv_chunk_n\<close>, the text
  \<open>chunk\<close> and the category \<open>cv\<close>. \<open>float_str\<close> is how Python prints a float, left open.
  \<open>read_chunks\<close> is what \<open>read_and_chunk_sentences("cv1.txt", 3, 1)\<close> returns: \<open>chunk.py\<close> is
  not part of the sources, and no property below depends on it.
\<close>

record world =
  init_groq :: "exn option"
  init_pinecone :: "exn option"
  read_chunks :: "exn + string list"
  list_indexes :: "nat \<Rightarrow> exn + string list"
  create_index :: "nat \<Rightarrow> string \<Rightarrow> exn option"
  upsert_records :: "nat \<Rightarrow> string \<Rightarrow> nat \<Rightarrow> string \<Rightarrow> exn option"
  open_index :: "nat \<Rightarrow> string \<Rightarrow> exn option"
  describe_index_stats :: "nat \<Rightarrow> string \<Rightarrow> exn + string"
  search :: "nat \<Rightarrow> string \<Rightarrow> string \<Rightarrow> nat \<Rightarrow> exn + payload"
  complete :: "nat \<Rightarrow> message list \<Rightarrow> exn + choice list"
  complete_stream :: "nat \<Rightarrow> message list \<Rightarrow> exn + stream_item list"
  float_str :: "rat \<Rightarrow> string"

datatype remote =
    ListIndexes
  | OpenIndex string
  | DescribeStats string
  | Search string string nat
  | CreateIndex string
  | Upsert string nat string
  | Complete "message list"
  | CompleteStream "message list"

datatype level = INFO | WARNING | ERROR

text \<open>One constructor per \<open>logging\<close> call of the scripts.\<close>

datatype log_msg =
    ListIndexesFailed exn
  | NoIndexes
  | SearchingIndex string
  | OpenIndexFailed string exn
  | SearchFailed exn
  | ParseFailed exn
  | EntryLogged entry
  | SelectLLMFailed exn
  | IndexSelected string
  | RespondLLMFailed exn
  | NoCVIdentified
  | IndexStats string
  | Leaving
  | Interrupted
  | Unexpected exn
  | ApiKeyDetected
  | IndexNotFound string
  | IndexCreated string
  | IndexExists string
  | ReadingCV
  | ChunksGenerated nat
  | RecordUploaded nat
  | LoadDone

text \<open>\<open>Print s\<close> writes \<open>s\<close> to the standard output, \<open>PrintErr s\<close> to the standard error;
  \<open>Traceback e\<close> is the interpreter reporting the uncaught exception \<open>e\<close>.\<close>

datatype event = Call remote | Log level log_msg | Print string | PrintErr string | Traceback exn

text \<open>
  The state of a session: \<open>self.messages\<close>, the clock of remote calls, and everything the
  run has done that can be seen from outside.
\<close>

record state =
  messages :: "message list"
  clock :: nat
  trace :: "event list"

definition emit :: "event \<Rightarrow> state \<Rightarrow> state" where
  "emit ev s = s\<lparr>trace := trace s @ [ev]\<rparr>"

definition calling :: "remote \<Rightarrow> state \<Rightarrow> state" where
  "calling r s = s\<lparr>clock := Suc (clock s), trace := trace s @ [Call r]\<rparr>"


definition is_llm_call :: "event \<Rightarrow> bool" where
  "is_llm_call ev = (case ev of Call (Complete m) \<Rightarrow> True | Call (CompleteStream m) \<Rightarrow> True | _ \<Rightarrow> False)"

section \<open>\<open>TP-3/cv_agent.py\<close>\<close>

subsection \<open>\<open>search_similar\<close>\<close>

definition entry_of_hit :: "hit \<Rightarrow> entry" where
  "entry_of_hit h =
     \<lparr>e_id = get_or (h_id h) [],
      e_score = round2 (get_or (h_score h) 0),
      e_category = get_or (f_category (get_or (h_fields h) \<lparr>f_category = None, f_chunk_text = None\<rparr>)) [],
      e_text = get_or (f_chunk_text (get_or (h_fields h) \<lparr>f_category = None, f_chunk_text = None\<rparr>)) []\<rparr>"

text \<open>The loop over the hits (lines 84 to 95): the first hit that raises ends it, with
  the entries appended so far.\<close>

fun normalize_hits :: "bool \<Rightarrow> raw_hit list \<Rightarrow> entry list \<Rightarrow> state \<Rightarrow> entry list \<times> state" where
  "normalize_hits debug [] data s = (data, s)"
| "normalize_hits debug (Malformed e # hs) data s = (data, emit (Log ERROR (ParseFailed e)) s)"
| "normalize_hits debug (Hit h # hs) data s =
     normalize_hits debug hs (data @ [entry_of_hit h])
       (if debug then emit (Log INFO (EntryLogged (entry_of_hit h))) s else s)"

definition search_similar :: "world \<Rightarrow> string \<Rightarrow> string \<Rightarrow> nat \<Rightarrow> bool \<Rightarrow> state \<Rightarrow> entry list \<times> state" where
  "search_similar w index txt top_k debug s =
     (case search w (clock s) index txt top_k of
        Inl e \<Rightarrow> ([], emit (Log ERROR (SearchFailed e)) (calling (Search index txt top_k) s))
      | Inr (BadPayload e) \<Rightarrow> ([], emit (Log ERROR (ParseFailed e)) (calling (Search index txt top_k) s))
      | Inr (Hits hs) \<Rightarrow> normalize_hits debug hs [] (calling (Search index txt top_k) s))"

subsection \<open>\<open>CVSelectorTool.run\<close>\<close>

text \<open>The loop over the listed indexes (lines 133 to 151); \<open>cv_chunks\<close> is the dict, in
  insertion order. The pause of \<open>time.sleep\<close> changes nothing that is observed here and is
  left out, here and in \<open>vector_db.py\<close>.\<close>

fun collect_chunks ::
  "world \<Rightarrow> string \<Rightarrow> string list \<Rightarrow> (string \<times> string list) list \<Rightarrow> state
     \<Rightarrow> (string \<times> string list) list \<times> state" where
  "collect_chunks w query [] cv_chunks s = (cv_chunks, s)"
| "collect_chunks w query (idx # rest) cv_chunks s =
     (case open_index w (clock s) idx of
        Some e \<Rightarrow>
          collect_chunks w query rest cv_chunks
            (emit (Log ERROR (OpenIndexFailed idx e))
               (calling (OpenIndex idx) (emit (Log INFO (SearchingIndex idx)) s)))
      | None \<Rightarrow>
          (case search_similar w idx query 3 False
                  (calling (OpenIndex idx) (emit (Log INFO (SearchingIndex idx)) s)) of
             (results, s') \<Rightarrow>
               collect_chunks w query rest
                 (AList.update idx
                    (if map e_text (filter (\<lambda>c. e_text c \<noteq> []) results) = []
                     then [''(sin coincidencias relevantes)'']
                     else map e_text (filter (\<lambda>c. e_text c \<noteq> []) results))
                    cv_chunks)
                 s'))"

definition selector_prompt :: "(string \<times> string list) list \<Rightarrow> string" where
  "selector_prompt cv_chunks =
     ''Tienes estos '' @ [CHR 0xED] @ ''ndices con sus contenidos m'' @ [CHR 0xE1] @ ''s relevantes:'' @ [nl]
     @ concat (map (\<lambda>(idx, chunks).
          ''- '' @ [CHR 0xCD] @ ''ndice: '' @ idx @ [nl] @ ''  Contenido: '' @ join '' | '' (take 3 chunks) @ [nl])
        cv_chunks)
     @ [nl] @ ''Instrucci'' @ [CHR 0xF3] @ ''n: Dada la consulta del usuario, responde SOLO con el NOMBRE EXACTO ''
     @ ''del '' @ [CHR 0xED] @ ''ndice m'' @ [CHR 0xE1] @ ''s relevante. No incluyas texto adicional.''"

text \<open>Lines 178 to 183: the answer read off the first choice, stripped.\<close>

definition none_strip :: string where
  "none_strip = [CHR 0x27] @ ''NoneType'' @ [CHR 0x27] @ '' object has no attribute '' @ [CHR 0x27] @ ''strip'' @ [CHR 0x27]"

definition selected_of :: "choice list \<Rightarrow> exn + string" where
  "selected_of choices =
     (case choices of
        [] \<Rightarrow> Inl (IndexError ''list index out of range'')
      | MessageChoice None # _ \<Rightarrow> Inl (AttributeError none_strip)
      | MessageChoice (Some c) # _ \<Rightarrow> Inr (strip c)
      | DeltaChoice None # _ \<Rightarrow> Inl (AttributeError none_strip)
      | DeltaChoice (Some c) # _ \<Rightarrow> Inr (strip c)
      | OtherChoice c # _ \<Rightarrow> Inr (strip c))"

definition selector_messages :: "(string \<times> string list) list \<Rightarrow> string \<Rightarrow> message list" where
  "selector_messages cv_chunks query =
     [\<lparr>role = ''system'', content = selector_prompt cv_chunks\<rparr>,
      \<lparr>role = ''user'', content = query\<rparr>]"

definition CVSelectorTool_run :: "world \<Rightarrow> string \<Rightarrow> state \<Rightarrow> string \<times> state" where
  "CVSelectorTool_run w query s =
     (case list_indexes w (clock s) of
        Inl e \<Rightarrow> ([], emit (Log ERROR (ListIndexesFailed e)) (calling ListIndexes s))
      | Inr indexes \<Rightarrow>
          if indexes = [] then ([], emit (Log WARNING NoIndexes) (calling ListIndexes s))
          else
            (case collect_chunks w query indexes [] (calling ListIndexes s) of
               (cv_chunks, s1) \<Rightarrow>
                 (case complete w (clock s1) (selector_messages cv_chunks query) of
                    Inl e \<Rightarrow>
                      ([], emit (Log ERROR (SelectLLMFailed e))
                             (calling (Complete (selector_messages cv_chunks query)) s1))
                  | Inr choices \<Rightarrow>
                      (case selected_of choices of
                         Inl e \<Rightarrow>
                           ([], emit (Log ERROR (SelectLLMFailed e))
                                  (calling (Complete (selector_messages cv_chunks query)) s1))
                       | Inr selected_idx \<Rightarrow>
                           (if selected_idx \<in> set (map fst cv_chunks) then selected_idx else [],
                            emit (Log INFO (IndexSelected selected_idx))
                              (emit (Print (''Indice Seleccionado: '' @ selected_idx @ [nl]))
                                 (calling (Complete (selector_messages cv_chunks query)) s1)))))))"

subsection \<open>\<open>CVRetrieverTool.run\<close> and \<open>LLMResponderTool.run\<close>\<close>

definition CVRetrieverTool_run :: "world \<Rightarrow> string \<Rightarrow> string \<Rightarrow> nat \<Rightarrow> state \<Rightarrow> entry list \<times> state" where
  "CVRetrieverTool_run w index_name query top_k s =
     (case open_index w (clock s) index_name of
        Some e \<Rightarrow> ([], emit (Log ERROR (OpenIndexFailed index_name e)) (calling (OpenIndex index_name) s))
      | None \<Rightarrow> search_similar w index_name query top_k False (calling (OpenIndex index_name) s))"

definition apology :: string where
  "apology = ''Ocurri'' @ [CHR 0xF3] @ '' un error generando la respuesta.''"

text \<open>The loop over the stream (lines 236 to 245). Only reading the chunk is inside the
  \<open>try\<close>; the iterator itself is not.\<close>

fun responder_loop :: "stream_item list \<Rightarrow> string \<Rightarrow> state \<Rightarrow> (exn + string) \<times> state" where
  "responder_loop [] response s = (Inr response, s)"
| "responder_loop (StreamFail e # items) response s = (Inl e, s)"
| "responder_loop (BadChunk e # items) response s = responder_loop items response s"
| "responder_loop (Delta c # items) response s =
     (if get_or c [] \<noteq> []
      then responder_loop items (response @ get_or c []) (emit (Print (get_or c [])) s)
      else responder_loop items response s)"

definition LLMResponderTool_run :: "world \<Rightarrow> message list \<Rightarrow> state \<Rightarrow> (exn + string) \<times> state" where
  "LLMResponderTool_run w msgs s =
     (case complete_stream w (clock s) msgs of
        Inl e \<Rightarrow> (Inr apology, emit (Log ERROR (RespondLLMFailed e)) (calling (CompleteStream msgs) s))
      | Inr items \<Rightarrow>
          (case responder_loop items [] (calling (CompleteStream msgs) s) of
             (Inl e, s') \<Rightarrow> (Inl e, s')
           | (Inr response, s') \<Rightarrow> (Inr response, emit (Print [nl]) s')))"

subsection \<open>\<open>CVChatAgent.chat\<close>\<close>

definition no_cv_reply :: string where
  "no_cv_reply = ''No encontr'' @ [CHR 0xE9] @ '' un CV relevante para tu consulta.''"

definition system_msg :: string where
  "system_msg =
     ''Eres un asistente que responde preguntas bas'' @ [CHR 0xE1] @ ''ndote EXCLUSIVAMENTE en el contexto provisto. ''
     @ ''Si el contexto no contiene la respuesta, reconoce la limitaci'' @ [CHR 0xF3]
     @ ''n y sugiere preguntar de otra forma.''"

definition context_snippets :: "entry list \<Rightarrow> string list" where
  "context_snippets context_docs =
     map (\<lambda>doc. take 300 (e_text doc)) (filter (\<lambda>doc. e_text doc \<noteq> []) (take 5 context_docs))"

definition context_blob :: "entry list \<Rightarrow> string" where
  "context_blob context_docs =
     (if context_snippets context_docs \<noteq> []
      then join ([nl] @ ''- '') (context_snippets context_docs)
      else ''(sin contexto relevante)'')"

definition user_msg :: "string \<Rightarrow> string \<Rightarrow> entry list \<Rightarrow> string" where
  "user_msg user_message target_index context_docs =
     ''Consulta del usuario: '' @ user_message @ [nl, nl]
     @ [CHR 0xCD] @ ''ndice seleccionado: '' @ target_index @ [nl]
     @ ''Contexto (fragmentos):'' @ [nl] @ ''- '' @ context_blob context_docs @ [nl, nl]
     @ ''Responde de forma concisa y '' @ [CHR 0xFA] @ ''til.''"

definition append_message :: "string \<Rightarrow> string \<Rightarrow> state \<Rightarrow> state" where
  "append_message r c s = s\<lparr>messages := messages s @ [\<lparr>role = r, content = c\<rparr>]\<rparr>"

definition CVChatAgent_chat :: "world \<Rightarrow> string \<Rightarrow> state \<Rightarrow> (exn + string) \<times> state" where
  "CVChatAgent_chat w user_message s =
     (case CVSelectorTool_run w user_message s of
        (target_index, s1) \<Rightarrow>
          if target_index = [] then (Inr no_cv_reply, emit (Log WARNING NoCVIdentified) s1)
          else
            (case CVRetrieverTool_run w target_index user_message 3 s1 of
               (context_docs, s2) \<Rightarrow>
                 (case LLMResponderTool_run w
                         (messages s2 @ [\<lparr>role = ''system'', content = system_msg\<rparr>,
                                         \<lparr>role = ''user'', content = user_msg user_message target_index context_docs\<rparr>])
                         (append_message ''user'' (user_msg user_message target_index context_docs)
                            (append_message ''system'' system_msg s2)) of
                    (Inl e, s3) \<Rightarrow> (Inl e, s3)
                  | (Inr response, s3) \<Rightarrow> (Inr response, append_message ''assistant'' response s3))))"

subsection \<open>\<open>main\<close>\<close>

text \<open>
  What the prompt delivers: a line, or a keyboard interrupt. When the input is exhausted,
  \<open>input()\<close> raises \<open>EOFError\<close>. A loop ends by \<open>break\<close>, by the interrupt, or by an
  exception leaving it; it returns the input left unread with the state.
\<close>

datatype input_ev = Line string | CtrlC

datatype loop_end = Break | Interrupt | Raise exn

definition agent_prompt :: string where
  "agent_prompt = ''T'' @ [CHR 0xFA] @ '': ''"

definition agent_banner :: string where
  "agent_banner =
     ''Agente de consulta de CVs iniciado. Escribe '' @ [CHR 0x27] @ ''exit'' @ [CHR 0x27]
     @ '' para salir.'' @ [nl, nl]"

fun agent_loop :: "world \<Rightarrow> input_ev list \<Rightarrow> state \<Rightarrow> loop_end \<times> input_ev list \<times> state" where
  "agent_loop w [] s = (Raise EOFError, [], emit (Print agent_prompt) s)"
| "agent_loop w (CtrlC # rest) s = (Interrupt, rest, emit (Print agent_prompt) s)"
| "agent_loop w (Line l # rest) s =
     (if lower (strip l) \<in> {''exit'', ''quit''}
      then (Break, rest, emit (Print agent_prompt) s)
      else if strip l = [] then agent_loop w rest (emit (Print agent_prompt) s)
      else
        (case CVChatAgent_chat w (strip l)
                (emit (Print ([nl] @ ''--- Respuesta ---'' @ [nl]))
                   (emit (Print agent_prompt) s)) of
           (Inl e, s') \<Rightarrow> (Raise e, rest, s')
         | (Inr response, s') \<Rightarrow>
             agent_loop w rest (emit (Print ([nl] @ ''-----------------'' @ [nl, nl])) s')))"

text \<open>The module's initialization and \<open>main\<close>; the result is the exit status. Whatever
  ends the loop, the \<open>finally\<close> clause exits with status 0.\<close>

definition cv_agent_main :: "world \<Rightarrow> input_ev list \<Rightarrow> state \<Rightarrow> nat \<times> input_ev list \<times> state" where
  "cv_agent_main w inputs s =
     (case init_groq w of
        Some e \<Rightarrow> (1, inputs, emit (PrintErr (''Error al inicializar Groq: '' @ exn_str e @ [nl])) s)
      | None \<Rightarrow>
          (case init_pinecone w of
             Some e \<Rightarrow> (1, inputs, emit (PrintErr (''Error al conectar con Pinecone: '' @ exn_str e @ [nl])) s)
           | None \<Rightarrow>
               (case agent_loop w inputs
                       (emit (Print agent_banner) s) of
                  (Interrupt, rest, s') \<Rightarrow> (0, rest, emit (Print ([nl, nl] @ ''Cerrando agente...'' @ [nl])) s')
                | (Break, rest, s') \<Rightarrow> (0, rest, s')
                | (Raise e, rest, s') \<Rightarrow> (0, rest, s'))))"

section \<open>\<open>TP-2/vector_db.py\<close>\<close>

definition INDEX_NAME :: string where
  "INDEX_NAME = ''cv-index''"

text \<open>The f-string of lines 99 to 104: every key is read with \<open>[]\<close>, from left to right.\<close>

definition format_hit :: "world \<Rightarrow> hit \<Rightarrow> exn + string" where
  "format_hit w h =
     (case h_id h of
        None \<Rightarrow> Inl (KeyError ''_id'')
      | Some i \<Rightarrow>
     (case h_score h of
        None \<Rightarrow> Inl (KeyError ''_score'')
      | Some sc \<Rightarrow>
     (case h_fields h of
        None \<Rightarrow> Inl (KeyError ''fields'')
      | Some f \<Rightarrow>
     (case f_category f of
        None \<Rightarrow> Inl (KeyError ''category'')
      | Some c \<Rightarrow>
     (case f_chunk_text f of
        None \<Rightarrow> Inl (KeyError ''chunk_text'')
      | Some t \<Rightarrow>
          Inr (''id: '' @ ljust 10 i @ '' | score: '' @ ljust 5 (float_str w (round2 sc))
               @ '' | category: '' @ ljust 10 c @ '' | text: '' @ take 80 t @ ''...''))))))"

fun format_hits :: "world \<Rightarrow> bool \<Rightarrow> raw_hit list \<Rightarrow> string list \<Rightarrow> state \<Rightarrow> (exn + string list) \<times> state" where
  "format_hits w debug [] data s = (Inr data, s)"
| "format_hits w debug (Malformed e # hs) data s = (Inl e, s)"
| "format_hits w debug (Hit h # hs) data s =
     (case format_hit w h of
        Inl e \<Rightarrow> (Inl e, s)
      | Inr tmp \<Rightarrow>
          format_hits w debug hs (data @ [tmp]) (if debug then emit (Print (tmp @ [nl])) s else s))"

definition vdb_search_similar ::
  "world \<Rightarrow> string \<Rightarrow> string \<Rightarrow> nat \<Rightarrow> bool \<Rightarrow> state \<Rightarrow> (exn + string list) \<times> state" where
  "vdb_search_similar w index txt top_k debug s =
     (case describe_index_stats w (clock s) index of
        Inl e \<Rightarrow> (Inl e, calling (DescribeStats index) s)
      | Inr stats \<Rightarrow>
          (case search w (Suc (clock s)) index txt top_k of
             Inl e \<Rightarrow>
               (Inl e, calling (Search index txt top_k)
                         (emit (Log INFO (IndexStats stats)) (calling (DescribeStats index) s)))
           | Inr (BadPayload e) \<Rightarrow>
               (Inl e, calling (Search index txt top_k)
                         (emit (Log INFO (IndexStats stats)) (calling (DescribeStats index) s)))
           | Inr (Hits hs) \<Rightarrow>
               format_hits w debug hs []
                 (calling (Search index txt top_k)
                    (emit (Log INFO (IndexStats stats)) (calling (DescribeStats index) s)))))"

definition ensure_index :: "world \<Rightarrow> string \<Rightarrow> state \<Rightarrow> (exn + string) \<times> state" where
  "ensure_index w name s =
     (case list_indexes w (clock s) of
        Inl e \<Rightarrow> (Inl e, calling ListIndexes s)
      | Inr existing_indexes \<Rightarrow>
          if name \<notin> set existing_indexes
          then
            (case create_index w (Suc (clock s)) name of
               Some e \<Rightarrow>
                 (Inl e, calling (CreateIndex name) (emit (Log INFO (IndexNotFound name)) (calling ListIndexes s)))
             | None \<Rightarrow>
                 (case open_index w (Suc (Suc (clock s))) name of
                    Some e \<Rightarrow>
                      (Inl e, calling (OpenIndex name)
                                (emit (Log INFO (IndexCreated name))
                                   (calling (CreateIndex name)
                                      (emit (Log INFO (IndexNotFound name)) (calling ListIndexes s)))))
                  | None \<Rightarrow>
                      (Inr name, calling (OpenIndex name)
                                   (emit (Log INFO (IndexCreated name))
                                      (calling (CreateIndex name)
                                         (emit (Log INFO (IndexNotFound name)) (calling ListIndexes s)))))))
          else
            (case open_index w (Suc (clock s)) name of
               Some e \<Rightarrow>
                 (Inl e, calling (OpenIndex name) (emit (Log INFO (IndexExists name)) (calling ListIndexes s)))
             | None \<Rightarrow>
                 (Inr name, calling (OpenIndex name) (emit (Log INFO (IndexExists name)) (calling ListIndexes s)))))"

text \<open>\<open>load_data\<close>: the loop of lines 64 to 73 over \<open>enumerate(chunks)\<close>, from \<open>i\<close> on.\<close>

fun upsert_all :: "world \<Rightarrow> string \<Rightarrow> nat \<Rightarrow> string list \<Rightarrow> state \<Rightarrow> exn option \<times> state" where
  "upsert_all w index i [] s = (None, s)"
| "upsert_all w index i (chunk # chunks) s =
     (case upsert_records w (clock s) index (i + 1) chunk of
        Some e \<Rightarrow> (Some e, calling (Upsert index (i + 1) chunk) s)
      | None \<Rightarrow>
          upsert_all w index (i + 1) chunks
            (emit (Log INFO (RecordUploaded (i + 1))) (calling (Upsert index (i + 1) chunk) s)))"

definition load_data :: "world \<Rightarrow> string \<Rightarrow> state \<Rightarrow> exn option \<times> state" where
  "load_data w index s =
     (case read_chunks w of
        Inl e \<Rightarrow> (Some e, emit (Log INFO ReadingCV) s)
      | Inr chunks \<Rightarrow>
          (case upsert_all w index 0 chunks
                  (emit (Log INFO (ChunksGenerated (length chunks))) (emit (Log INFO ReadingCV) s)) of
             (Some e, s') \<Rightarrow> (Some e, s')
           | (None, s') \<Rightarrow> (None, emit (Log INFO LoadDone) s')))"

text \<open>The loop of lines 121 to 126.\<close>

definition search_prompt :: string where
  "search_prompt = ''Texto a buscar (Enter para salir): ''"

fun search_loop :: "world \<Rightarrow> string \<Rightarrow> input_ev list \<Rightarrow> state \<Rightarrow> loop_end \<times> input_ev list \<times> state" where
  "search_loop w index [] s = (Raise EOFError, [], emit (Print search_prompt) s)"
| "search_loop w index (CtrlC # rest) s = (Interrupt, rest, emit (Print search_prompt) s)"
| "search_loop w index (Line l # rest) s =
     (if strip l = [] then (Break, rest, emit (Log INFO Leaving) (emit (Print search_prompt) s))
      else
        (case vdb_search_similar w index (strip l) 3 True (emit (Print search_prompt) s) of
           (Inl e, s') \<Rightarrow> (Raise e, rest, s')
         | (Inr data, s') \<Rightarrow> search_loop w index rest s'))"

definition vdb_finish :: "loop_end \<times> input_ev list \<times> state \<Rightarrow> nat \<times> input_ev list \<times> state" where
  "vdb_finish r =
     (case r of
        (Break, rest, s) \<Rightarrow> (0, rest, s)
      | (Interrupt, rest, s) \<Rightarrow> (0, rest, emit (Log INFO Interrupted) s)
      | (Raise e, rest, s) \<Rightarrow> (1, rest, emit (Log ERROR (Unexpected e)) s))"

text \<open>The module (the client of line 25, outside any \<open>try\<close>) and its main block, with
  \<open>LOAD_DATA = True\<close>.\<close>

definition vector_db_main :: "world \<Rightarrow> input_ev list \<Rightarrow> state \<Rightarrow> nat \<times> input_ev list \<times> state" where
  "vector_db_main w inputs s =
     (case init_pinecone w of
        Some e \<Rightarrow> (1, inputs, emit (Traceback e) s)
      | None \<Rightarrow>
          (case ensure_index w INDEX_NAME (emit (Log INFO ApiKeyDetected) s) of
             (Inl e, s1) \<Rightarrow> vdb_finish (Raise e, inputs, s1)
           | (Inr dense_index, s1) \<Rightarrow>
               (case load_data w dense_index s1 of
                  (Some e, s2) \<Rightarrow> vdb_finish (Raise e, inputs, s2)
                | (None, s2) \<Rightarrow> vdb_finish (search_loop w dense_index inputs s2))))"

section \<open>\<open>TP-2/chat_groq.py\<close>\<close>

definition add_message :: "string \<Rightarrow> string \<Rightarrow> state \<Rightarrow> state" where
  "add_message r c s = s\<lparr>messages := messages s @ [\<lparr>role = r, content = c\<rparr>]\<rparr>"

text \<open>The loop over the stream (lines 87 to 90), with no \<open>try\<close> around it.\<close>

fun chat_loop :: "stream_item list \<Rightarrow> string \<Rightarrow> state \<Rightarrow> (exn + string) \<times> state" where
  "chat_loop [] response s = (Inr response, s)"
| "chat_loop (StreamFail e # items) response s = (Inl e, s)"
| "chat_loop (BadChunk e # items) response s = (Inl e, s)"
| "chat_loop (Delta c # items) response s =
     chat_loop items (response @ get_or c []) (emit (Print (get_or c [])) s)"

definition full_user_message :: "string \<Rightarrow> string list \<Rightarrow> string" where
  "full_user_message user_message context_docs =
     user_message @ [nl, nl] @ ''Contexto: '' @ join '' '' context_docs"

definition ChatSession_chat :: "world \<Rightarrow> string \<Rightarrow> state \<Rightarrow> (exn + string) \<times> state" where
  "ChatSession_chat w user_message s =
     (case vdb_search_similar w INDEX_NAME user_message 3 False s of
        (Inl e, s1) \<Rightarrow> (Inl e, s1)
      | (Inr context_docs, s1) \<Rightarrow>
          (case complete_stream w (clock s1)
                  (messages (add_message ''user'' (full_user_message user_message context_docs) s1)) of
             Inl e \<Rightarrow>
               (Inl e,
                calling (CompleteStream (messages (add_message ''user'' (full_user_message user_message context_docs) s1)))
                  (add_message ''user'' (full_user_message user_message context_docs) s1))
           | Inr items \<Rightarrow>
               (case chat_loop items []
                       (calling (CompleteStream (messages (add_message ''user'' (full_user_message user_message context_docs) s1)))
                          (add_message ''user'' (full_user_message user_message context_docs) s1)) of
                  (Inl e, s2) \<Rightarrow> (Inl e, s2)
                | (Inr response, s2) \<Rightarrow>
                    (Inr response, emit (Print [nl]) (add_message ''assistant'' response s2)))))"

definition chat_prompt :: string where
  "chat_prompt = ''T'' @ [CHR 0xFA] @ '': ''"


fun session_loop :: "world \<Rightarrow> input_ev list \<Rightarrow> state \<Rightarrow> loop_end \<times> input_ev list \<times> state" where
  "session_loop w [] s = (Raise EOFError, [], emit (Print chat_prompt) s)"
| "session_loop w (CtrlC # rest) s = (Interrupt, rest, emit (Print chat_prompt) s)"
| "session_loop w (Line l # rest) s =
     (if lower l \<in> {''exit'', ''quit''} then (Break, rest, emit (Print chat_prompt) s)
      else
        (case ChatSession_chat w l (emit (Print chat_prompt) s) of
           (Inl e, s') \<Rightarrow> (Raise e, rest, s')
         | (Inr response, s') \<Rightarrow> session_loop w rest s'))"


section \<open>Notions of the specification\<close>



text \<open>The fragments a stream delivers, in the order of arrival: the content of every
  chunk that carries one.\<close>

fun fragments :: "stream_item list \<Rightarrow> string list" where
  "fragments [] = []"
| "fragments (Delta (Some f) # items) = f # fragments items"
| "fragments (Delta None # items) = fragments items"
| "fragments (BadChunk e # items) = fragments items"
| "fragments (StreamFail e # items) = fragments items"


fun search_stop :: "input_ev list \<Rightarrow> loop_end \<times> input_ev list" where
  "search_stop [] = (Raise EOFError, [])"
| "search_stop (CtrlC # rest) = (Interrupt, rest)"
| "search_stop (Line l # rest) = (if strip l = [] then (Break, rest) else search_stop rest)"

section \<open>Example runs\<close>

text \<open>
  A world in which every service answers: two indexes are listed, every search returns
  one complete hit, the selecting completion answers with the second index name (with
  blanks around it), and the streamed completion delivers two fragments around an empty
  chunk. The runs below start from \<open>s0\<close>, or from \<open>s_hist\<close> with one earlier exchange.
\<close>

definition s0 :: state where
  "s0 = \<lparr>messages = [], clock = 0, trace = []\<rparr>"

definition s_hist :: state where
  "s_hist = \<lparr>messages = [\<lparr>role = ''user'', content = ''hola''\<rparr>,
                           \<lparr>role = ''assistant'', content = ''buenas''\<rparr>],
             clock = 4, trace = []\<rparr>"

definition demo_hit :: hit where
  "demo_hit = \<lparr>h_id = Some ''cv_chunk_1'', h_score = Some (9 / 10),
               h_fields = Some \<lparr>f_category = Some ''cv'', f_chunk_text = Some ''Python y SQL''\<rparr>\<rparr>"

definition demo_world :: world where
  "demo_world =
     \<lparr>init_groq = None,
      init_pinecone = None,
      read_chunks = Inr [''Python y SQL''],
      list_indexes = (\<lambda>t. Inr [''cv-ana'', ''cv-luis'']),
      create_index = (\<lambda>t name. None),
      upsert_records = (\<lambda>t index n chunk. None),
      open_index = (\<lambda>t name. None),
      describe_index_stats = (\<lambda>t index. Inr ''{}''),
      search = (\<lambda>t index txt k. Inr (Hits [Hit demo_hit])),
      complete = (\<lambda>t msgs. Inr [MessageChoice (Some '' cv-luis '')]),
      complete_stream = (\<lambda>t msgs. Inr [Delta (Some ''Sabe ''), Delta None, Delta (Some ''Python.'')]),
      float_str = (\<lambda>r. ''0.9'')\<rparr>"

text \<open>Variations: the completion service is down; the one hit lacks its category; the
  one hit carries a long text.\<close>

definition down_world :: world where
  "down_world = demo_world\<lparr>complete_stream := \<lambda>t msgs. Inl (RemoteError ''503 Service Unavailable'')\<rparr>"

definition nocat_hit :: hit where
  "nocat_hit = \<lparr>h_id = Some ''cv_chunk_1'', h_score = Some (9 / 10),
                h_fields = Some \<lparr>f_category = None, f_chunk_text = Some ''Python y SQL''\<rparr>\<rparr>"

definition nocat_world :: world where
  "nocat_world = demo_world\<lparr>search := \<lambda>t index txt k. Inr (Hits [Hit nocat_hit])\<rparr>"





text \<open>A world whose statistics call fails.\<close>

definition nostats_world :: world where
  "nostats_world = demo_world\<lparr>describe_index_stats := \<lambda>t index. Inl (RemoteError ''timeout'')\<rparr>"

section \<open>The conversation history is touched only by the chat operations\<close>

lemma messages_emit: "messages (emit ev s) = messages s"
  by (simp add: emit_def)

lemma messages_calling: "messages (calling r s) = messages s"
  by (simp add: calling_def)

lemma messages_normalize_hits: "messages (snd (normalize_hits debug hs data s)) = messages s"
  by (induction debug hs data s rule: normalize_hits.induct) (simp_all add: messages_emit)

lemma messages_search_similar: "messages (snd (search_similar w index txt k debug s)) = messages s"
  by (simp add: search_similar_def messages_emit messages_calling messages_normalize_hits
      split: sum.splits payload.splits)

lemma messages_collect_chunks: "messages (snd (collect_chunks w query idxs cv s)) = messages s"
proof (induction idxs arbitrary: cv s)
  case Nil
  show ?case by simp
next
  case (Cons idx rest)
  show ?case
  proof (cases "open_index w (clock s) idx")
    case (Some e)
    then show ?thesis by (simp add: Cons.IH messages_emit messages_calling)
  next
    case None
    obtain results s' where r: "search_similar w idx query 3 False
        (calling (OpenIndex idx) (emit (Log INFO (SearchingIndex idx)) s)) = (results, s')"
      by (cases "search_similar w idx query 3 False
        (calling (OpenIndex idx) (emit (Log INFO (SearchingIndex idx)) s))")
    have "messages s' = messages s"
      using messages_search_similar[of w idx query 3 False
          "calling (OpenIndex idx) (emit (Log INFO (SearchingIndex idx)) s)"] r
      by (simp add: messages_emit messages_calling)
    with None r show ?thesis by (simp add: Cons.IH)
  qed
qed

lemma messages_selector: "messages (snd (CVSelectorTool_run w query s)) = messages s"
proof -
  obtain cv s1 where c: "collect_chunks w query (projr (list_indexes w (clock s))) [] (calling ListIndexes s) = (cv, s1)"
    by (cases "collect_chunks w query (projr (list_indexes w (clock s))) [] (calling ListIndexes s)")
  have "messages s1 = messages s"
    using messages_collect_chunks[of w query "projr (list_indexes w (clock s))" "[]" "calling ListIndexes s"] c
    by (simp add: messages_calling)
  with c show ?thesis
    by (auto simp: CVSelectorTool_run_def messages_emit messages_calling split: sum.splits)
qed

lemma messages_retriever: "messages (snd (CVRetrieverTool_run w index_name query k s)) = messages s"
  by (simp add: CVRetrieverTool_run_def messages_emit messages_calling messages_search_similar
      split: option.splits)

lemma messages_responder_loop: "messages (snd (responder_loop items response s)) = messages s"
  by (induction items response s rule: responder_loop.induct) (simp_all add: messages_emit)

lemma messages_responder: "messages (snd (LLMResponderTool_run w msgs s)) = messages s"
proof (cases "complete_stream w (clock s) msgs")
  case (Inl e)
  then show ?thesis by (simp add: LLMResponderTool_run_def messages_emit messages_calling)
next
  case (Inr items)
  obtain r s' where l: "responder_loop items [] (calling (CompleteStream msgs) s) = (r, s')"
    by (cases "responder_loop items [] (calling (CompleteStream msgs) s)")
  have "messages s' = messages s"
    using messages_responder_loop[of items "[]" "calling (CompleteStream msgs) s"] l
    by (simp add: messages_calling)
  with Inr l show ?thesis
    by (simp add: LLMResponderTool_run_def messages_emit split: sum.splits)
qed

lemma messages_format_hits: "messages (snd (format_hits w debug hs data s)) = messages s"
  by (induction w debug hs data s rule: format_hits.induct) (simp_all add: messages_emit split: sum.splits)

lemma messages_vdb_search: "messages (snd (vdb_search_similar w index txt k debug s)) = messages s"
  by (simp add: vdb_search_similar_def messages_emit messages_calling messages_format_hits
      split: sum.splits payload.splits)

lemma messages_chat_loop: "messages (snd (chat_loop items response s)) = messages s"
  by (induction items response s rule: chat_loop.induct) (simp_all add: messages_emit)


lemma messages_append_message: "messages (append_message r c s) = messages s @ [\<lparr>role = r, content = c\<rparr>]"
  by (simp add: append_message_def)

lemma messages_add_message: "messages (add_message r c s) = messages s @ [\<lparr>role = r, content = c\<rparr>]"
  by (simp add: add_message_def)

lemma agent_chat_cases:
  assumes "CVChatAgent_chat w m s = (res, s')"
  shows "(fst (CVSelectorTool_run w m s) = [] \<and> res = Inr no_cv_reply \<and> messages s' = messages s)
       \<or> (fst (CVSelectorTool_run w m s) \<noteq> [] \<and>
           (\<exists>c. (\<exists>e. res = Inl e \<and>
                   messages s' = messages s @ [\<lparr>role = ''system'', content = system_msg\<rparr>,
                                               \<lparr>role = ''user'', content = c\<rparr>])
              \<or> (\<exists>r. res = Inr r \<and>
                   messages s' = messages s @ [\<lparr>role = ''system'', content = system_msg\<rparr>,
                                               \<lparr>role = ''user'', content = c\<rparr>,
                                               \<lparr>role = ''assistant'', content = r\<rparr>])))"
proof -
  obtain target s1 where sel: "CVSelectorTool_run w m s = (target, s1)"
    by (cases "CVSelectorTool_run w m s")
  have m1: "messages s1 = messages s"
    using messages_selector[of w m s] sel by simp
  show ?thesis
  proof (cases "target = []")
    case True
    with assms sel m1 show ?thesis
      by (auto simp: CVChatAgent_chat_def messages_emit)
  next
    case False
    obtain docs s2 where ret: "CVRetrieverTool_run w target m 3 s1 = (docs, s2)"
      by (cases "CVRetrieverTool_run w target m 3 s1")
    have m2: "messages s2 = messages s"
      using messages_retriever[of w target m 3 s1] ret m1 by simp
    define c where "c = user_msg m target docs"
    define s2' where "s2' = append_message ''user'' c (append_message ''system'' system_msg s2)"
    define msgs where "msgs = messages s2 @ [\<lparr>role = ''system'', content = system_msg\<rparr>, \<lparr>role = ''user'', content = c\<rparr>]"
    obtain r3 s3 where resp: "LLMResponderTool_run w msgs s2' = (r3, s3)"
      by (cases "LLMResponderTool_run w msgs s2'")
    have m3: "messages s3 = messages s @ [\<lparr>role = ''system'', content = system_msg\<rparr>, \<lparr>role = ''user'', content = c\<rparr>]"
      using messages_responder[of w msgs s2'] resp m2
      by (simp add: s2'_def messages_append_message)
    from assms sel False ret resp
    have "(res, s') = (case r3 of Inl e \<Rightarrow> (Inl e, s3) | Inr response \<Rightarrow> (Inr response, append_message ''assistant'' response s3))"
      by (simp add: CVChatAgent_chat_def c_def s2'_def msgs_def split: sum.splits)
    with m3 sel False show ?thesis
      by (cases r3) (auto simp: messages_append_message)
  qed
qed

lemma session_chat_cases:
  assumes "ChatSession_chat w m s = (res, s')"
  shows "(\<exists>e. res = Inl e \<and> messages s' = messages s)
       \<or> (\<exists>c. (\<exists>e. res = Inl e \<and> messages s' = messages s @ [\<lparr>role = ''user'', content = c\<rparr>])
              \<or> (\<exists>r. res = Inr r \<and>
                   messages s' = messages s @ [\<lparr>role = ''user'', content = c\<rparr>,
                                               \<lparr>role = ''assistant'', content = r\<rparr>]))"
proof -
  obtain r1 s1 where vs: "vdb_search_similar w INDEX_NAME m 3 False s = (r1, s1)"
    by (cases "vdb_search_similar w INDEX_NAME m 3 False s")
  have m1: "messages s1 = messages s"
    using messages_vdb_search[of w INDEX_NAME m 3 False s] vs by simp
  show ?thesis
  proof (cases r1)
    case (Inl e)
    with assms vs m1 show ?thesis by (auto simp: ChatSession_chat_def)
  next
    case (Inr docs)
    define c where "c = full_user_message m docs"
    define s1' where "s1' = add_message ''user'' c s1"
    have m1': "messages s1' = messages s @ [\<lparr>role = ''user'', content = c\<rparr>]"
      by (simp add: s1'_def messages_add_message m1)
    show ?thesis
    proof (cases "complete_stream w (clock s1) (messages s1')")
      case (Inl e)
      with assms vs Inr m1' show ?thesis
        by (auto simp: ChatSession_chat_def c_def s1'_def messages_calling)
    next
      case items: (Inr items)
      obtain r2 s2 where l: "chat_loop items [] (calling (CompleteStream (messages s1')) s1') = (r2, s2)"
        by (cases "chat_loop items [] (calling (CompleteStream (messages s1')) s1')")
      have m2: "messages s2 = messages s @ [\<lparr>role = ''user'', content = c\<rparr>]"
        using messages_chat_loop[of items "[]" "calling (CompleteStream (messages s1')) s1'"] l m1'
        by (simp add: messages_calling)
      from assms vs Inr items l
      have "(res, s') = (case r2 of Inl e \<Rightarrow> (Inl e, s2)
                          | Inr response \<Rightarrow> (Inr response, emit (Print [nl]) (add_message ''assistant'' response s2)))"
        by (simp add: ChatSession_chat_def c_def s1'_def split: sum.splits)
      with m2 show ?thesis
        by (cases r2) (auto simp: messages_add_message messages_emit)
    qed
  qed
qed

section \<open>The index selector\<close>

lemma collect_chunks_keys:
  "k \<in> fst ` set (fst (collect_chunks w query idxs cv s)) \<Longrightarrow> k \<in> fst ` set cv \<or> k \<in> set idxs"
proof (induction idxs arbitrary: cv s)
  case Nil
  then show ?case by simp
next
  case (Cons idx rest)
  show ?case
  proof (cases "open_index w (clock s) idx")
    case (Some e)
    with Cons.prems have "k \<in> fst ` set (fst (collect_chunks w query rest cv
        (emit (Log ERROR (OpenIndexFailed idx e))
           (calling (OpenIndex idx) (emit (Log INFO (SearchingIndex idx)) s)))))"
      by simp
    from Cons.IH[OF this] show ?thesis by auto
  next
    case None
    obtain results s' where r: "search_similar w idx query 3 False
        (calling (OpenIndex idx) (emit (Log INFO (SearchingIndex idx)) s)) = (results, s')"
      by (cases "search_similar w idx query 3 False
        (calling (OpenIndex idx) (emit (Log INFO (SearchingIndex idx)) s))")
    define v where "v = (if map e_text (filter (\<lambda>c. e_text c \<noteq> []) results) = []
                     then [''(sin coincidencias relevantes)'']
                     else map e_text (filter (\<lambda>c. e_text c \<noteq> []) results))"
    from Cons.prems None r have "k \<in> fst ` set (fst (collect_chunks w query rest (AList.update idx v cv) s'))"
      by (simp add: v_def)
    from Cons.IH[OF this] show ?thesis by (auto simp: dom_update)
  qed
qed

lemma selector_result:
  assumes "list_indexes w (clock s) = Inr names"
  shows "fst (CVSelectorTool_run w query s) = [] \<or> fst (CVSelectorTool_run w query s) \<in> set names"
proof (cases "fst (CVSelectorTool_run w query s) = []")
  case True
  then show ?thesis by simp
next
  case False
  obtain cv s1 where c: "collect_chunks w query names [] (calling ListIndexes s) = (cv, s1)"
    by (cases "collect_chunks w query names [] (calling ListIndexes s)")
  from False assms c have "fst (CVSelectorTool_run w query s) \<in> fst ` set cv"
    by (auto simp: CVSelectorTool_run_def split: if_splits sum.splits) (metis fst_conv image_eqI)+
  then have "fst (CVSelectorTool_run w query s) \<in> fst ` set (fst (collect_chunks w query names [] (calling ListIndexes s)))"
    using c by simp
  from collect_chunks_keys[OF this] show ?thesis by simp
qed

text \<open>
  C1. A run of the index selector with no index listed returns the empty string ("no
  selection") at once: the listing is its only remote call, and no completion is
  requested. In every run the result is the empty string or one of the listed index
  names (the empty string when the listing itself fails); in particular an answer of the
  model that is not a listed name is not returned.
\<close>

theorem selector_fails_closed:
  "(list_indexes w (clock s) = Inr [] \<longrightarrow>
      CVSelectorTool_run w query s = ([], emit (Log WARNING NoIndexes) (calling ListIndexes s)) \<and>
      filter is_llm_call (trace (snd (CVSelectorTool_run w query s))) = filter is_llm_call (trace s))
   \<and> (\<forall>names. list_indexes w (clock s) = Inr names \<longrightarrow>
          fst (CVSelectorTool_run w query s) = [] \<or> fst (CVSelectorTool_run w query s) \<in> set names)
   \<and> (\<forall>names cv s1 choices answer.
          list_indexes w (clock s) = Inr names \<and> names \<noteq> [] \<and>
          collect_chunks w query names [] (calling ListIndexes s) = (cv, s1) \<and>
          complete w (clock s1) (selector_messages cv query) = Inr choices \<and>
          selected_of choices = Inr answer \<and> answer \<notin> set names \<longrightarrow>
          fst (CVSelectorTool_run w query s) = [])
   \<and> (\<forall>e. list_indexes w (clock s) = Inl e \<longrightarrow> fst (CVSelectorTool_run w query s) = [])"
proof (intro conjI allI impI)
  assume "list_indexes w (clock s) = Inr []"
  then show "CVSelectorTool_run w query s = ([], emit (Log WARNING NoIndexes) (calling ListIndexes s))"
    by (simp add: CVSelectorTool_run_def)
  then show "filter is_llm_call (trace (snd (CVSelectorTool_run w query s))) = filter is_llm_call (trace s)"
    by (simp add: emit_def calling_def is_llm_call_def)
next
  fix names
  assume "list_indexes w (clock s) = Inr names"
  then show "fst (CVSelectorTool_run w query s) = [] \<or> fst (CVSelectorTool_run w query s) \<in> set names"
    by (rule selector_result)
next
  fix names cv s1 choices answer
  assume a: "list_indexes w (clock s) = Inr names \<and> names \<noteq> [] \<and>
          collect_chunks w query names [] (calling ListIndexes s) = (cv, s1) \<and>
          complete w (clock s1) (selector_messages cv query) = Inr choices \<and>
          selected_of choices = Inr answer \<and> answer \<notin> set names"
  then have r: "fst (CVSelectorTool_run w query s) = (if answer \<in> set (map fst cv) then answer else [])"
    by (simp add: CVSelectorTool_run_def)
  from a selector_result[of w s names query] show "fst (CVSelectorTool_run w query s) = []"
    unfolding r by (auto split: if_splits)
next
  fix e
  assume "list_indexes w (clock s) = Inl e"
  then show "fst (CVSelectorTool_run w query s) = []"
    by (simp add: CVSelectorTool_run_def)
qed

theorem selector_fails_closed_witness:
  "list_indexes (demo_world\<lparr>list_indexes := \<lambda>t. Inr []\<rparr>) (clock s0) = Inr []
   \<and> CVSelectorTool_run (demo_world\<lparr>list_indexes := \<lambda>t. Inr []\<rparr>) ''hola'' s0
       = ([], emit (Log WARNING NoIndexes) (calling ListIndexes s0))
   \<and> list_indexes demo_world (clock s0) = Inr [''cv-ana'', ''cv-luis'']
   \<and> fst (CVSelectorTool_run demo_world ''hola'' s0) \<in> {[], ''cv-ana'', ''cv-luis''}
   \<and> fst (CVSelectorTool_run demo_world ''hola'' s0) = ''cv-luis''
   \<and> fst (CVSelectorTool_run (demo_world\<lparr>complete := \<lambda>t msgs. Inr [MessageChoice (Some ''cv-eva'')]\<rparr>) ''hola'' s0) = []"
  using selector_fails_closed[of "demo_world\<lparr>list_indexes := \<lambda>t. Inr []\<rparr>" s0 "''hola''"]
        selector_fails_closed[of demo_world s0 "''hola''"]
  by (simp add: demo_world_def CVSelectorTool_run_def s0_def calling_def emit_def search_similar_def
      entry_of_hit_def get_or_def demo_hit_def selected_of_def strip_def isspace_def)

section \<open>The agent's turn without a selection\<close>

text \<open>
  C9. When the index selector returns the empty string, the agent's chat operation returns
  the fixed reply \<open>no_cv_reply\<close> (that no relevant CV was found) and the conversation
  history is what it was before the turn.
\<close>

theorem chat_no_selection:
  assumes "fst (CVSelectorTool_run w user_message s) = []"
  shows "fst (CVChatAgent_chat w user_message s) = Inr no_cv_reply
       \<and> messages (snd (CVChatAgent_chat w user_message s)) = messages s"
  using assms agent_chat_cases[of w user_message s "fst (CVChatAgent_chat w user_message s)"
      "snd (CVChatAgent_chat w user_message s)"]
  by simp

theorem chat_no_selection_witness:
  "fst (CVSelectorTool_run (demo_world\<lparr>complete := \<lambda>t msgs. Inr [MessageChoice (Some ''ninguno'')]\<rparr>) ''hola'' s_hist) = []
   \<and> fst (CVChatAgent_chat (demo_world\<lparr>complete := \<lambda>t msgs. Inr [MessageChoice (Some ''ninguno'')]\<rparr>) ''hola'' s_hist)
       = Inr no_cv_reply
   \<and> messages (snd (CVChatAgent_chat (demo_world\<lparr>complete := \<lambda>t msgs. Inr [MessageChoice (Some ''ninguno'')]\<rparr>) ''hola'' s_hist))
       = [\<lparr>role = ''user'', content = ''hola''\<rparr>, \<lparr>role = ''assistant'', content = ''buenas''\<rparr>]"
proof -
  have h: "fst (CVSelectorTool_run (demo_world\<lparr>complete := \<lambda>t msgs. Inr [MessageChoice (Some ''ninguno'')]\<rparr>) ''hola'' s_hist) = []"
    by (simp add: CVSelectorTool_run_def demo_world_def s_hist_def calling_def emit_def search_similar_def
        selected_of_def strip_def isspace_def)
  from chat_no_selection[OF h] h show ?thesis
    by (simp add: s_hist_def)
qed

section \<open>The roles a turn and a loop append\<close>





section \<open>Consuming a stream\<close>

lemma responder_loop_concat:
  "(\<And>e. StreamFail e \<notin> set items) \<Longrightarrow>
   fst (responder_loop items acc s) = Inr (acc @ concat (fragments items))"
proof (induction items acc s rule: responder_loop.induct)
  case (1 response s)
  show ?case by simp
next
  case (2 e items response s)
  from 2(1)[of e] show ?case by simp
next
  case (3 e items response s)
  have "\<And>e'. StreamFail e' \<notin> set items" using 3(2) by auto
  from 3(1)[OF this] show ?case by simp
next
  case (4 c items response s)
  have r: "\<And>e'. StreamFail e' \<notin> set items" using 4(3) by auto
  show ?case
  proof (cases c)
    case None
    with 4(2)[OF _ r] show ?thesis by (simp add: get_or_def)
  next
    case (Some f)
    show ?thesis
    proof (cases "f = []")
      case True
      with Some 4(2)[OF _ r] show ?thesis by (simp add: get_or_def)
    next
      case False
      with Some 4(1)[OF _ r] show ?thesis by (simp add: get_or_def)
    qed
  qed
qed

lemma chat_loop_concat:
  "(\<And>e. StreamFail e \<notin> set items \<and> BadChunk e \<notin> set items) \<Longrightarrow>
   fst (chat_loop items acc s) = Inr (acc @ concat (fragments items))"
proof (induction items acc s rule: chat_loop.induct)
  case (1 response s)
  show ?case by simp
next
  case (2 e items response s)
  from 2(1)[of e] show ?case by simp
next
  case (3 e items response s)
  from 3(1)[of e] show ?case by simp
next
  case (4 c items response s)
  have r: "\<And>e'. StreamFail e' \<notin> set items \<and> BadChunk e' \<notin> set items" using 4(2) by auto
  from 4(1)[OF r] show ?case by (cases c) (simp_all add: get_or_def)
qed



lemma clock_append_message: "clock (append_message r c s) = clock s"
  by (simp add: append_message_def)

lemma clock_add_message: "clock (add_message r c s) = clock s"
  by (simp add: add_message_def)

lemma responder_stream:
  assumes "complete_stream w (clock s) msgs = Inr items" and "\<And>e. StreamFail e \<notin> set items"
  shows "fst (LLMResponderTool_run w msgs s) = Inr (concat (fragments items))"
proof -
  have "fst (responder_loop items [] (calling (CompleteStream msgs) s)) = Inr ([] @ concat (fragments items))"
    using assms(2) by (intro responder_loop_concat)
  with assms(1) show ?thesis
    by (cases "responder_loop items [] (calling (CompleteStream msgs) s)") (simp add: LLMResponderTool_run_def)
qed

lemma agent_chat_stream:
  assumes sel: "CVSelectorTool_run w m s = (target, s1)" and t: "target \<noteq> []"
    and ret: "CVRetrieverTool_run w target m 3 s1 = (docs, s2)"
    and str: "complete_stream w (clock s2)
                (messages s @ [\<lparr>role = ''system'', content = system_msg\<rparr>,
                               \<lparr>role = ''user'', content = user_msg m target docs\<rparr>]) = Inr items"
    and ok: "\<And>e. StreamFail e \<notin> set items"
  shows "fst (CVChatAgent_chat w m s) = Inr (concat (fragments items))
       \<and> messages (snd (CVChatAgent_chat w m s)) =
           messages s @ [\<lparr>role = ''system'', content = system_msg\<rparr>,
                         \<lparr>role = ''user'', content = user_msg m target docs\<rparr>,
                         \<lparr>role = ''assistant'', content = concat (fragments items)\<rparr>]"
proof -
  have m1: "messages s1 = messages s"
    using messages_selector[of w m s] sel by simp
  have m2: "messages s2 = messages s"
    using messages_retriever[of w target m 3 s1] ret m1 by simp
  define s2' where "s2' = append_message ''user'' (user_msg m target docs) (append_message ''system'' system_msg s2)"
  define msgs where "msgs = messages s2 @ [\<lparr>role = ''system'', content = system_msg\<rparr>,
                                         \<lparr>role = ''user'', content = user_msg m target docs\<rparr>]"
  have ms2': "messages s2' = msgs"
    by (simp add: s2'_def msgs_def messages_append_message)
  have "complete_stream w (clock s2') msgs = Inr items"
    using str m2 by (simp add: s2'_def msgs_def clock_append_message)
  from responder_stream[OF this ok]
  have r: "fst (LLMResponderTool_run w msgs s2') = Inr (concat (fragments items))" .
  obtain s3 where run: "LLMResponderTool_run w msgs s2' = (Inr (concat (fragments items)), s3)"
    using r by (cases "LLMResponderTool_run w msgs s2'") simp
  have m3: "messages s3 = msgs"
    using messages_responder[of w msgs s2'] run ms2' by simp
  from sel t ret run
  have "CVChatAgent_chat w m s =
          (Inr (concat (fragments items)), append_message ''assistant'' (concat (fragments items)) s3)"
    by (simp add: CVChatAgent_chat_def s2'_def msgs_def)
  with m3 m2 show ?thesis
    by (simp add: messages_append_message msgs_def)
qed

lemma session_chat_stream:
  assumes vs: "vdb_search_similar w INDEX_NAME m 3 False s = (Inr docs, s1)"
    and str: "complete_stream w (clock s1)
                (messages s @ [\<lparr>role = ''user'', content = full_user_message m docs\<rparr>]) = Inr items"
    and ok: "\<And>e. StreamFail e \<notin> set items \<and> BadChunk e \<notin> set items"
  shows "fst (ChatSession_chat w m s) = Inr (concat (fragments items))
       \<and> messages (snd (ChatSession_chat w m s)) =
           messages s @ [\<lparr>role = ''user'', content = full_user_message m docs\<rparr>,
                         \<lparr>role = ''assistant'', content = concat (fragments items)\<rparr>]"
proof -
  have m1: "messages s1 = messages s"
    using messages_vdb_search[of w INDEX_NAME m 3 False s] vs by simp
  define s1' where "s1' = add_message ''user'' (full_user_message m docs) s1"
  have ms1': "messages s1' = messages s @ [\<lparr>role = ''user'', content = full_user_message m docs\<rparr>]"
    by (simp add: s1'_def messages_add_message m1)
  have c: "complete_stream w (clock s1) (messages s1') = Inr items"
    using str ms1' by simp
  have "fst (chat_loop items [] (calling (CompleteStream (messages s1')) s1')) = Inr ([] @ concat (fragments items))"
    using ok by (intro chat_loop_concat)
  then obtain s2 where l: "chat_loop items [] (calling (CompleteStream (messages s1')) s1')
       = (Inr (concat (fragments items)), s2)"
    by (cases "chat_loop items [] (calling (CompleteStream (messages s1')) s1')") simp
  have m2: "messages s2 = messages s1'"
    using messages_chat_loop[of items "[]" "calling (CompleteStream (messages s1')) s1'"] l
    by (simp add: messages_calling)
  from vs c l have "ChatSession_chat w m s =
      (Inr (concat (fragments items)), emit (Print [nl]) (add_message ''assistant'' (concat (fragments items)) s2))"
    by (simp add: ChatSession_chat_def s1'_def)
  with m2 ms1' show ?thesis
    by (simp add: messages_emit messages_add_message)
qed

section \<open>Facts about the example world\<close>


lemma demo_selects: "fst (CVSelectorTool_run demo_world q s) = ''cv-luis''"
  by (simp add: CVSelectorTool_run_def demo_world_def calling_def emit_def search_similar_def
      selected_of_def strip_def isspace_def)

lemma demo_stream_reply:
  "complete_stream demo_world t msgs = Inr [Delta (Some ''Sabe ''), Delta None, Delta (Some ''Python.'')]"
  by (simp add: demo_world_def)

lemma demo_vdb_returns: "\<exists>docs. fst (vdb_search_similar demo_world index q k debug s) = Inr docs"
  by (cases debug) (simp_all add: vdb_search_similar_def demo_world_def demo_hit_def format_hit_def)



section \<open>Normalizing the hits\<close>

lemma round2_zero: "round2 0 = 0"
  by (simp add: round2_def)

lemma round2_demo: "round2 (9 / 10) = 9 / 10"
  by (simp add: round2_def)

lemma normalize_hits_all:
  "fst (normalize_hits debug (map Hit hs) data s) = data @ map entry_of_hit hs"
  by (induction hs arbitrary: data s) simp_all

lemma search_similar_all:
  assumes "search w (clock s) index txt top_k = Inr (Hits (map Hit hs))"
  shows "fst (search_similar w index txt top_k debug s) = map entry_of_hit hs"
  using assms by (simp add: search_similar_def normalize_hits_all)

section \<open>A completion request that fails\<close>

lemma session_chat_request_fails:
  assumes vs: "vdb_search_similar w INDEX_NAME m 3 False s = (Inr docs, s1)"
    and str: "complete_stream w (clock s1)
                (messages s @ [\<lparr>role = ''user'', content = full_user_message m docs\<rparr>]) = Inl e"
  shows "fst (ChatSession_chat w m s) = Inl e"
proof -
  have m1: "messages s1 = messages s"
    using messages_vdb_search[of w INDEX_NAME m 3 False s] vs by simp
  from vs str m1 show ?thesis
    by (simp add: ChatSession_chat_def messages_add_message)
qed

lemma agent_chat_request_fails:
  assumes sel: "CVSelectorTool_run w m s = (target, s1)" and t: "target \<noteq> []"
    and ret: "CVRetrieverTool_run w target m 3 s1 = (docs, s2)"
    and str: "complete_stream w (clock s2)
                (messages s @ [\<lparr>role = ''system'', content = system_msg\<rparr>,
                               \<lparr>role = ''user'', content = user_msg m target docs\<rparr>]) = Inl e"
  shows "fst (CVChatAgent_chat w m s) = Inr apology
       \<and> messages (snd (CVChatAgent_chat w m s)) =
           messages s @ [\<lparr>role = ''system'', content = system_msg\<rparr>,
                         \<lparr>role = ''user'', content = user_msg m target docs\<rparr>,
                         \<lparr>role = ''assistant'', content = apology\<rparr>]"
proof -
  have m1: "messages s1 = messages s"
    using messages_selector[of w m s] sel by simp
  have m2: "messages s2 = messages s"
    using messages_retriever[of w target m 3 s1] ret m1 by simp
  from sel t ret str m2 show ?thesis
    by (simp add: CVChatAgent_chat_def LLMResponderTool_run_def clock_append_message
        messages_append_message messages_emit messages_calling)
qed

lemma down_vdb_returns: "\<exists>docs. fst (vdb_search_similar down_world index q k debug s) = Inr docs"
  by (cases debug) (simp_all add: vdb_search_similar_def down_world_def demo_world_def demo_hit_def format_hit_def)

lemma down_stream: "complete_stream down_world t msgs = Inl (RemoteError ''503 Service Unavailable'')"
  by (simp add: down_world_def)

lemma down_selects: "fst (CVSelectorTool_run down_world q s) = ''cv-luis''"
  by (simp add: CVSelectorTool_run_def down_world_def demo_world_def calling_def emit_def search_similar_def
      selected_of_def strip_def isspace_def)

lemma down_session_raises:
  "fst (ChatSession_chat down_world q s) = Inl (RemoteError ''503 Service Unavailable'')"
proof -
  obtain vdocs where "fst (vdb_search_similar down_world INDEX_NAME q 3 False s) = Inr vdocs"
    using down_vdb_returns by blast
  then obtain v1 where vs: "vdb_search_similar down_world INDEX_NAME q 3 False s = (Inr vdocs, v1)"
    by (cases "vdb_search_similar down_world INDEX_NAME q 3 False s") simp
  from session_chat_request_fails[OF vs down_stream] show ?thesis .
qed

section \<open>The history is append-only\<close>

lemma agent_chat_prefix: "prefix (messages s) (messages (snd (CVChatAgent_chat w m s)))"
  using agent_chat_cases[of w m s "fst (CVChatAgent_chat w m s)" "snd (CVChatAgent_chat w m s)"]
  by auto

lemma session_chat_prefix: "prefix (messages s) (messages (snd (ChatSession_chat w m s)))"
  using session_chat_cases[of w m s "fst (ChatSession_chat w m s)" "snd (ChatSession_chat w m s)"]
  by auto

lemma agent_loop_prefix: "prefix (messages s) (messages (snd (snd (agent_loop w inputs s))))"
proof (induction inputs arbitrary: s)
  case Nil
  show ?case by (simp add: messages_emit)
next
  case (Cons ev rest)
  show ?case
  proof (cases ev)
    case CtrlC
    then show ?thesis by (simp add: messages_emit)
  next
    case (Line l)
    define s1 where "s1 = emit (Print ([nl] @ ''--- Respuesta ---'' @ [nl])) (emit (Print agent_prompt) s)"
    obtain r s' where c: "CVChatAgent_chat w (strip l) s1 = (r, s')"
      by (cases "CVChatAgent_chat w (strip l) s1")
    have p1: "prefix (messages s) (messages s')"
      using agent_chat_prefix[of s1 w "strip l"] c by (simp add: s1_def messages_emit)
    have p2: "prefix (messages s')
        (messages (snd (snd (agent_loop w rest (emit (Print ([nl] @ ''-----------------'' @ [nl, nl])) s')))))"
      using Cons.IH[of "emit (Print ([nl] @ ''-----------------'' @ [nl, nl])) s'"] by (simp add: messages_emit)
    have p3: "prefix (messages s) (messages (snd (snd (agent_loop w rest (emit (Print agent_prompt) s)))))"
      using Cons.IH[of "emit (Print agent_prompt) s"] by (simp add: messages_emit)
    show ?thesis
    proof (cases r)
      case (Inl e)
      with Line c p1 p3 show ?thesis
        by (simp add: s1_def messages_emit del: insert_iff)
    next
      case (Inr response)
      from p1 p2 have "prefix (messages s)
        (messages (snd (snd (agent_loop w rest (emit (Print ([nl] @ ''-----------------'' @ [nl, nl])) s')))))"
        by (rule prefix_order.trans)
      with Inr Line c p3 show ?thesis
        by (simp add: s1_def messages_emit del: insert_iff)
    qed
  qed
qed

lemma session_loop_prefix: "prefix (messages s) (messages (snd (snd (session_loop w inputs s))))"
proof (induction inputs arbitrary: s)
  case Nil
  show ?case by (simp add: messages_emit)
next
  case (Cons ev rest)
  show ?case
  proof (cases ev)
    case CtrlC
    then show ?thesis by (simp add: messages_emit)
  next
    case (Line l)
    obtain r s' where c: "ChatSession_chat w l (emit (Print chat_prompt) s) = (r, s')"
      by (cases "ChatSession_chat w l (emit (Print chat_prompt) s)")
    have p1: "prefix (messages s) (messages s')"
      using session_chat_prefix[of "emit (Print chat_prompt) s" w l] c by (simp add: messages_emit)
    show ?thesis
    proof (cases r)
      case (Inl e)
      with Line c p1 show ?thesis
        by (simp add: messages_emit del: insert_iff)
    next
      case (Inr response)
      from p1 Cons.IH[of s'] have "prefix (messages s) (messages (snd (snd (session_loop w rest s'))))"
        by (rule prefix_order.trans)
      with Inr Line c show ?thesis
        by (simp add: messages_emit del: insert_iff)
    qed
  qed
qed

text \<open>
  C7. The conversation history is append-only: after \<open>add_message\<close>, after a chat turn of
  either variant (whether it returns or raises) and after any run of either main loop, the
  history from before is a prefix of the history after, so every earlier message is still
  there, unchanged and in its place.
\<close>

theorem history_append_only:
  "prefix (messages s) (messages (add_message r c s))
   \<and> prefix (messages s) (messages (snd (ChatSession_chat w m s)))
   \<and> prefix (messages s) (messages (snd (CVChatAgent_chat w m s)))
   \<and> prefix (messages s) (messages (snd (snd (session_loop w inputs s))))
   \<and> prefix (messages s) (messages (snd (snd (agent_loop w inputs s))))"
  by (simp add: messages_add_message session_chat_prefix agent_chat_prefix session_loop_prefix agent_loop_prefix)

theorem history_append_only_witness:
  "prefix (messages s_hist) (messages (snd (CVChatAgent_chat demo_world ''hola'' s_hist)))
   \<and> prefix (messages s_hist) (messages (snd (ChatSession_chat demo_world ''hola'' s_hist)))
   \<and> take 2 (messages (snd (snd (agent_loop demo_world [Line ''hola'', Line ''exit''] s_hist))))
       = [\<lparr>role = ''user'', content = ''hola''\<rparr>, \<lparr>role = ''assistant'', content = ''buenas''\<rparr>]"
proof -
  have "prefix (messages s_hist) (messages (snd (snd (agent_loop demo_world [Line ''hola'', Line ''exit''] s_hist))))"
    using history_append_only[of s_hist] by blast
  then obtain zs where "messages (snd (snd (agent_loop demo_world [Line ''hola'', Line ''exit''] s_hist))) = messages s_hist @ zs"
    by (auto simp: prefix_def)
  then have "take 2 (messages (snd (snd (agent_loop demo_world [Line ''hola'', Line ''exit''] s_hist))))
       = [\<lparr>role = ''user'', content = ''hola''\<rparr>, \<lparr>role = ''assistant'', content = ''buenas''\<rparr>]"
    by (simp add: s_hist_def)
  then show ?thesis
    using history_append_only[of s_hist] by blast
qed


section \<open>Where the text of a hit is cut\<close>











section \<open>How the main loops end\<close>







lemma strip_empty_iff: "strip l = [] \<longleftrightarrow> (\<forall>c \<in> set l. isspace c)"
proof
  assume "strip l = []"
  then have "\<forall>c \<in> set (dropWhile isspace l). isspace c"
    by (simp add: strip_def dropWhile_eq_Nil_conv)
  then have "dropWhile isspace l = []"
    using hd_dropWhile[of isspace l] by (cases "dropWhile isspace l") auto
  then show "\<forall>c \<in> set l. isspace c"
    by (simp add: dropWhile_eq_Nil_conv)
next
  assume "\<forall>c \<in> set l. isspace c"
  then have d: "dropWhile isspace l = []" by (simp add: dropWhile_eq_Nil_conv)
  show "strip l = []" unfolding strip_def d by simp
qed

lemma vdb_search_calls:
  "\<exists>evs. trace (snd (vdb_search_similar w index txt k debug s)) = trace s @ Call (DescribeStats index) # evs"
proof -
  have fh: "\<exists>evs. trace (snd (format_hits w debug hs data st)) = trace st @ evs" for hs data st
  proof (induction hs arbitrary: data st)
    case Nil
    show ?case by simp
  next
    case (Cons x hs)
    show ?case
    proof (cases x)
      case (Malformed e)
      then show ?thesis by simp
    next
      case (Hit h)
      show ?thesis
      proof (cases "format_hit w h")
        case (Inl e)
        with Hit show ?thesis by simp
      next
        case (Inr tmp)
        from Cons.IH[of "data @ [tmp]" "if debug then emit (Print (tmp @ [nl])) st else st"]
        obtain evs where "trace (snd (format_hits w debug hs (data @ [tmp])
            (if debug then emit (Print (tmp @ [nl])) st else st))) =
            trace (if debug then emit (Print (tmp @ [nl])) st else st) @ evs" by blast
        with Hit Inr show ?thesis by (simp add: emit_def)
      qed
    qed
  qed
  show ?thesis
  proof (cases "describe_index_stats w (clock s) index")
    case (Inl e)
    then show ?thesis by (simp add: vdb_search_similar_def calling_def)
  next
    case stats: (Inr stats)
    show ?thesis
    proof (cases "search w (Suc (clock s)) index txt k")
      case (Inl e)
      with stats show ?thesis by (simp add: vdb_search_similar_def calling_def emit_def)
    next
      case (Inr p)
      show ?thesis
      proof (cases p)
        case (BadPayload e)
        with stats Inr show ?thesis by (simp add: vdb_search_similar_def calling_def emit_def)
      next
        case (Hits hs)
        from fh[of hs "[]" "calling (Search index txt k)
                    (emit (Log INFO (IndexStats stats)) (calling (DescribeStats index) s))"]
        obtain evs where "trace (snd (format_hits w debug hs []
             (calling (Search index txt k) (emit (Log INFO (IndexStats stats)) (calling (DescribeStats index) s)))))
           = trace (calling (Search index txt k) (emit (Log INFO (IndexStats stats)) (calling (DescribeStats index) s))) @ evs"
          by blast
        with stats Inr Hits show ?thesis by (simp add: vdb_search_similar_def calling_def emit_def)
      qed
    qed
  qed
qed

lemma blank_spaces: "\<forall>c \<in> set ''  ''. isspace c"
  by (simp add: isspace_def)

lemma exit_not_blank: "\<not> (\<forall>c \<in> set ''exit''. isspace c)"
  by (simp add: isspace_def)

lemma strip_exit: "strip ''exit'' = ''exit''"
  by (simp add: strip_def isspace_def)











lemma strip_hola: "strip ''hola'' = ''hola''"
  by (simp add: strip_def isspace_def)

lemma format_hits_trace:
  "\<exists>evs. trace (snd (format_hits w debug hs data st)) = trace st @ evs"
proof (induction hs arbitrary: data st)
  case Nil
  show ?case by simp
next
  case (Cons x hs)
  show ?case
  proof (cases x)
    case (Malformed e)
    then show ?thesis by simp
  next
    case (Hit h)
    show ?thesis
    proof (cases "format_hit w h")
      case (Inl e)
      with Hit show ?thesis by simp
    next
      case (Inr tmp)
      from Cons.IH[of "data @ [tmp]" "if debug then emit (Print (tmp @ [nl])) st else st"]
      obtain evs where "trace (snd (format_hits w debug hs (data @ [tmp])
          (if debug then emit (Print (tmp @ [nl])) st else st))) =
          trace (if debug then emit (Print (tmp @ [nl])) st else st) @ evs" by blast
      with Hit Inr show ?thesis by (simp add: emit_def)
    qed
  qed
qed

lemma vdb_search_issues_search:
  assumes "describe_index_stats w (clock s) index = Inr stats"
  shows "\<exists>evs. trace (snd (vdb_search_similar w index txt k debug s)) =
           trace s @ [Call (DescribeStats index), Log INFO (IndexStats stats), Call (Search index txt k)] @ evs"
proof (cases "search w (Suc (clock s)) index txt k")
  case (Inl e)
  with assms show ?thesis by (simp add: vdb_search_similar_def calling_def emit_def)
next
  case (Inr p)
  show ?thesis
  proof (cases p)
    case (BadPayload e)
    with assms Inr show ?thesis by (simp add: vdb_search_similar_def calling_def emit_def)
  next
    case (Hits hs)
    from format_hits_trace[of w debug hs "[]" "calling (Search index txt k)
                (emit (Log INFO (IndexStats stats)) (calling (DescribeStats index) s))"]
    obtain evs where "trace (snd (format_hits w debug hs []
         (calling (Search index txt k) (emit (Log INFO (IndexStats stats)) (calling (DescribeStats index) s)))))
       = trace (calling (Search index txt k) (emit (Log INFO (IndexStats stats)) (calling (DescribeStats index) s))) @ evs"
      by blast
    with assms Inr Hits show ?thesis by (simp add: vdb_search_similar_def calling_def emit_def)
  qed
qed

lemma format_hits_lines:
  "map (format_hit w) hs = map Inr lines \<Longrightarrow>
   fst (format_hits w debug (map Hit hs) data s) = Inr (data @ lines)"
proof (induction hs arbitrary: lines data s)
  case Nil
  then show ?case by simp
next
  case (Cons h hs)
  from Cons.prems obtain line lines' where l: "lines = line # lines'" "format_hit w h = Inr line"
    "map (format_hit w) hs = map Inr lines'"
    by (cases lines) auto
  from Cons.IH[OF l(3), of "data @ [line]"] l show ?case by simp
qed

lemma format_hits_raises:
  "map (format_hit w) hs = map Inr lines \<Longrightarrow> format_hit w h = Inl e \<Longrightarrow>
   fst (format_hits w debug (map Hit hs @ Hit h # later) data s) = Inl e"
proof (induction hs arbitrary: lines data s)
  case Nil
  then show ?case by simp
next
  case (Cons h' hs)
  from Cons.prems obtain line lines' where l: "lines = line # lines'" "format_hit w h' = Inr line"
    "map (format_hit w) hs = map Inr lines'"
    by (cases lines) auto
  from Cons.IH[OF l(3) Cons.prems(2), of "data @ [line]"] l show ?case by simp
qed

lemma vdb_search_returns:
  assumes "describe_index_stats w (clock s) index = Inr stats"
    and "search w (Suc (clock s)) index txt k = Inr (Hits (map Hit hs))"
    and "map (format_hit w) hs = map Inr lines"
  shows "fst (vdb_search_similar w index txt k debug s) = Inr lines"
  using assms format_hits_lines[of w hs lines debug "[]"]
  by (simp add: vdb_search_similar_def)

lemma vdb_search_raises:
  "(describe_index_stats w (clock s) index = Inl e \<longrightarrow>
      vdb_search_similar w index txt k debug s = (Inl e, calling (DescribeStats index) s))
   \<and> (describe_index_stats w (clock s) index = Inr stats \<and> search w (Suc (clock s)) index txt k = Inl e \<longrightarrow>
      fst (vdb_search_similar w index txt k debug s) = Inl e)
   \<and> (describe_index_stats w (clock s) index = Inr stats \<and>
      search w (Suc (clock s)) index txt k = Inr (Hits (map Hit hs @ Hit h # later)) \<and>
      map (format_hit w) hs = map Inr lines \<and> format_hit w h = Inl e \<longrightarrow>
      fst (vdb_search_similar w index txt k debug s) = Inl e)"
  using format_hits_raises[of w hs lines h e debug later "[]"]
  by (simp add: vdb_search_similar_def)

lemma search_loop_stop:
  assumes d: "\<And>t index. \<exists>stats. describe_index_stats w t index = Inr stats"
    and h: "\<And>t index q k. \<exists>hs lines. search w t index q k = Inr (Hits (map Hit hs))
                                       \<and> map (format_hit w) hs = map Inr lines"
  shows "(fst (search_loop w index inputs s), fst (snd (search_loop w index inputs s))) = search_stop inputs"
proof (induction inputs arbitrary: s)
  case Nil
  show ?case by simp
next
  case (Cons ev rest)
  show ?case
  proof (cases ev)
    case CtrlC
    then show ?thesis by simp
  next
    case (Line l)
    show ?thesis
    proof (cases "strip l = []")
      case True
      with Line show ?thesis by simp
    next
      case False
      define p where "p = emit (Print search_prompt) s"
      obtain stats where st: "describe_index_stats w (clock p) index = Inr stats"
        using d by blast
      obtain hs lines where hh: "search w (Suc (clock p)) index (strip l) 3 = Inr (Hits (map Hit hs))"
        "map (format_hit w) hs = map Inr lines"
        using h by blast
      have "fst (vdb_search_similar w index (strip l) 3 True p) = Inr lines"
        using vdb_search_returns[OF st hh] .
      then obtain s' where v: "vdb_search_similar w index (strip l) 3 True p = (Inr lines, s')"
        by (cases "vdb_search_similar w index (strip l) 3 True p") simp
      with Line False have "search_loop w index (ev # rest) s = search_loop w index rest s'"
        by (simp add: p_def)
      with Cons.IH[of s'] Line False show ?thesis by simp
    qed
  qed
qed

lemma demo_answers:
  "(\<forall>t index. \<exists>stats. describe_index_stats demo_world t index = Inr stats) \<and>
   (\<forall>t index q k. \<exists>hs lines. search demo_world t index q k = Inr (Hits (map Hit hs))
                                \<and> map (format_hit demo_world) hs = map Inr lines)"
proof -
  have f: "\<exists>line. format_hit demo_world demo_hit = Inr line"
    by (simp add: format_hit_def demo_hit_def)
  then obtain line where "format_hit demo_world demo_hit = Inr line" by blast
  then have "search demo_world t index q k = Inr (Hits (map Hit [demo_hit]))
         \<and> map (format_hit demo_world) [demo_hit] = map Inr [line]" for t index q k
    by (simp add: demo_world_def)
  then have "\<forall>t index q k. \<exists>hs lines. search demo_world t index q k = Inr (Hits (map Hit hs))
                                \<and> map (format_hit demo_world) hs = map Inr lines"
    by blast
  moreover have "\<forall>t index. \<exists>stats. describe_index_stats demo_world t index = Inr stats"
    by (simp add: demo_world_def)
  ultimately show ?thesis by blast
qed

lemma search_stop_example:
  "search_stop [Line ''exit'', Line ''hola'', Line ''  '', Line ''x''] = (Break, [Line ''x''])"
  by (simp add: strip_def isspace_def)

lemma hola_not_blank: "\<not> (\<forall>c \<in> set ''hola''. isspace c)"
  by (simp add: isspace_def)

lemma nocat_search_raises:
  "fst (vdb_search_similar nocat_world index ''hola'' 3 True s) = Inl (KeyError ''category'')"
  by (simp add: vdb_search_similar_def nocat_world_def demo_world_def nocat_hit_def format_hit_def)

lemma demo_stats: "describe_index_stats demo_world (clock s0) INDEX_NAME = Inr ''{}''"
  by (simp add: demo_world_def)

section \<open>The streamed reply\<close>

text \<open>
  C3. When the Responder consumes a streamed completion to its end, the string it returns
  is the concatenation of the fragments received, in the order of arrival, none dropped,
  repeated or moved; and the turn appends that string to the history exactly once, as
  the last message, with role \<open>assistant\<close>. This holds for \<open>LLMResponderTool.run\<close> and
  \<open>CVChatAgent.chat\<close> of the agent (whose loop skips a chunk it cannot read) and for
  \<open>ChatSession.chat\<close> of the base script (on a stream whose chunks can all be read).
\<close>

theorem streamed_reply:
  "(complete_stream w (clock s) msgs = Inr items \<and> (\<forall>e. StreamFail e \<notin> set items) \<longrightarrow>
      fst (LLMResponderTool_run w msgs s) = Inr (concat (fragments items)))
   \<and> (CVSelectorTool_run w m s = (target, s1) \<and> target \<noteq> [] \<and>
      CVRetrieverTool_run w target m 3 s1 = (context_docs, s2) \<and>
      complete_stream w (clock s2)
        (messages s @ [\<lparr>role = ''system'', content = system_msg\<rparr>,
                       \<lparr>role = ''user'', content = user_msg m target context_docs\<rparr>]) = Inr items \<and>
      (\<forall>e. StreamFail e \<notin> set items) \<longrightarrow>
      fst (CVChatAgent_chat w m s) = Inr (concat (fragments items)) \<and>
      messages (snd (CVChatAgent_chat w m s)) =
        messages s @ [\<lparr>role = ''system'', content = system_msg\<rparr>,
                      \<lparr>role = ''user'', content = user_msg m target context_docs\<rparr>,
                      \<lparr>role = ''assistant'', content = concat (fragments items)\<rparr>])
   \<and> (vdb_search_similar w INDEX_NAME m 3 False s = (Inr docs, s1') \<and>
      complete_stream w (clock s1')
        (messages s @ [\<lparr>role = ''user'', content = full_user_message m docs\<rparr>]) = Inr items \<and>
      (\<forall>e. StreamFail e \<notin> set items \<and> BadChunk e \<notin> set items) \<longrightarrow>
      fst (ChatSession_chat w m s) = Inr (concat (fragments items)) \<and>
      messages (snd (ChatSession_chat w m s)) =
        messages s @ [\<lparr>role = ''user'', content = full_user_message m docs\<rparr>,
                      \<lparr>role = ''assistant'', content = concat (fragments items)\<rparr>])"
proof (intro conjI impI)
  assume "complete_stream w (clock s) msgs = Inr items \<and> (\<forall>e. StreamFail e \<notin> set items)"
  then show "fst (LLMResponderTool_run w msgs s) = Inr (concat (fragments items))"
    by (intro responder_stream) simp_all
next
  assume a: "CVSelectorTool_run w m s = (target, s1) \<and> target \<noteq> [] \<and>
      CVRetrieverTool_run w target m 3 s1 = (context_docs, s2) \<and>
      complete_stream w (clock s2)
        (messages s @ [\<lparr>role = ''system'', content = system_msg\<rparr>,
                       \<lparr>role = ''user'', content = user_msg m target context_docs\<rparr>]) = Inr items \<and>
      (\<forall>e. StreamFail e \<notin> set items)"
  then have "fst (CVChatAgent_chat w m s) = Inr (concat (fragments items))
       \<and> messages (snd (CVChatAgent_chat w m s)) =
           messages s @ [\<lparr>role = ''system'', content = system_msg\<rparr>,
                         \<lparr>role = ''user'', content = user_msg m target context_docs\<rparr>,
                         \<lparr>role = ''assistant'', content = concat (fragments items)\<rparr>]"
    by (intro agent_chat_stream[of w m s target s1 context_docs s2 items]) simp_all
  then show "fst (CVChatAgent_chat w m s) = Inr (concat (fragments items))"
    and "messages (snd (CVChatAgent_chat w m s)) =
           messages s @ [\<lparr>role = ''system'', content = system_msg\<rparr>,
                         \<lparr>role = ''user'', content = user_msg m target context_docs\<rparr>,
                         \<lparr>role = ''assistant'', content = concat (fragments items)\<rparr>]"
    by simp_all
next
  assume a: "vdb_search_similar w INDEX_NAME m 3 False s = (Inr docs, s1') \<and>
      complete_stream w (clock s1')
        (messages s @ [\<lparr>role = ''user'', content = full_user_message m docs\<rparr>]) = Inr items \<and>
      (\<forall>e. StreamFail e \<notin> set items \<and> BadChunk e \<notin> set items)"
  then have "fst (ChatSession_chat w m s) = Inr (concat (fragments items))
       \<and> messages (snd (ChatSession_chat w m s)) =
           messages s @ [\<lparr>role = ''user'', content = full_user_message m docs\<rparr>,
                         \<lparr>role = ''assistant'', content = concat (fragments items)\<rparr>]"
    by (intro session_chat_stream[of w m s docs s1' items]) simp_all
  then show "fst (ChatSession_chat w m s) = Inr (concat (fragments items))"
    and "messages (snd (ChatSession_chat w m s)) =
           messages s @ [\<lparr>role = ''user'', content = full_user_message m docs\<rparr>,
                         \<lparr>role = ''assistant'', content = concat (fragments items)\<rparr>]"
    by simp_all
qed

theorem streamed_reply_witness:
  "fst (LLMResponderTool_run demo_world [] s0) = Inr ''Sabe Python.''
   \<and> fst (CVChatAgent_chat demo_world ''hola'' s_hist) = Inr ''Sabe Python.''
   \<and> map role (messages (snd (CVChatAgent_chat demo_world ''hola'' s_hist)))
       = [''user'', ''assistant'', ''system'', ''user'', ''assistant'']
   \<and> last (messages (snd (CVChatAgent_chat demo_world ''hola'' s_hist)))
       = \<lparr>role = ''assistant'', content = ''Sabe Python.''\<rparr>
   \<and> fst (ChatSession_chat demo_world ''hola'' s_hist) = Inr ''Sabe Python.''
   \<and> map role (messages (snd (ChatSession_chat demo_world ''hola'' s_hist)))
       = [''user'', ''assistant'', ''user'', ''assistant'']
   \<and> last (messages (snd (ChatSession_chat demo_world ''hola'' s_hist)))
       = \<lparr>role = ''assistant'', content = ''Sabe Python.''\<rparr>"
proof -
  let ?items = "[Delta (Some ''Sabe ''), Delta None, Delta (Some ''Python.'')]"
  have ok: "\<forall>e. StreamFail e \<notin> set ?items" "\<forall>e. StreamFail e \<notin> set ?items \<and> BadChunk e \<notin> set ?items"
    by simp_all
  have fr: "concat (fragments ?items) = ''Sabe Python.''" by simp
  have a: "fst (LLMResponderTool_run demo_world [] s0) = Inr ''Sabe Python.''"
    using streamed_reply[where w = demo_world and s = s0 and msgs = "[]" and items = ?items]
      demo_stream_reply ok fr by simp
  obtain target s1 where sel: "CVSelectorTool_run demo_world ''hola'' s_hist = (target, s1)"
    by (cases "CVSelectorTool_run demo_world ''hola'' s_hist")
  have t: "target \<noteq> []" using demo_selects[of "''hola''" s_hist] sel by auto
  obtain docs s2 where ret: "CVRetrieverTool_run demo_world target ''hola'' 3 s1 = (docs, s2)"
    by (cases "CVRetrieverTool_run demo_world target ''hola'' 3 s1")
  have b: "fst (CVChatAgent_chat demo_world ''hola'' s_hist) = Inr ''Sabe Python.'' \<and>
      messages (snd (CVChatAgent_chat demo_world ''hola'' s_hist)) =
        messages s_hist @ [\<lparr>role = ''system'', content = system_msg\<rparr>,
                      \<lparr>role = ''user'', content = user_msg ''hola'' target docs\<rparr>,
                      \<lparr>role = ''assistant'', content = ''Sabe Python.''\<rparr>]"
    using streamed_reply[where w = demo_world and s = s_hist and m = "''hola''" and target = target
        and ?s1.0 = s1 and context_docs = docs and ?s2.0 = s2 and items = ?items]
      sel t ret demo_stream_reply ok fr by simp
  obtain vdocs where "fst (vdb_search_similar demo_world INDEX_NAME ''hola'' 3 False s_hist) = Inr vdocs"
    using demo_vdb_returns by blast
  then obtain v1 where vs: "vdb_search_similar demo_world INDEX_NAME ''hola'' 3 False s_hist = (Inr vdocs, v1)"
    by (cases "vdb_search_similar demo_world INDEX_NAME ''hola'' 3 False s_hist") simp
  have c: "fst (ChatSession_chat demo_world ''hola'' s_hist) = Inr ''Sabe Python.'' \<and>
      messages (snd (ChatSession_chat demo_world ''hola'' s_hist)) =
        messages s_hist @ [\<lparr>role = ''user'', content = full_user_message ''hola'' vdocs\<rparr>,
                      \<lparr>role = ''assistant'', content = ''Sabe Python.''\<rparr>]"
    using streamed_reply[where w = demo_world and s = s_hist and m = "''hola''" and docs = vdocs
        and ?s1' = v1 and items = ?items]
      vs demo_stream_reply ok fr by simp
  from a b c show ?thesis
    by (simp add: s_hist_def)
qed

section \<open>The roles of a history\<close>




section \<open>Hits with missing fields\<close>

text \<open>
  C4, as the code has it. In the agent's \<open>search_similar\<close> (\<open>cv_agent.py\<close>) a hit whose
  fields are missing is still normalized and appended: a reply whose hits are all mappings
  yields one record per hit, in order; a missing id, category or text becomes the empty
  string and a missing score becomes zero, while a field that is present is passed on
  (the score rounded). The base script's \<open>search_similar\<close> (\<open>vector_db.py\<close>) reads every
  field by subscript instead: the counterexample is a hit without its category, on which
  it raises \<open>KeyError\<close>.
\<close>

theorem missing_fields_default:
  "(search w (clock s) index txt top_k = Inr (Hits (map Hit hs)) \<longrightarrow>
      fst (search_similar w index txt top_k debug s) = map entry_of_hit hs)
   \<and> (h_id h = None \<longrightarrow> e_id (entry_of_hit h) = [])
   \<and> (h_score h = None \<longrightarrow> e_score (entry_of_hit h) = 0)
   \<and> (h_fields h = None \<longrightarrow> e_category (entry_of_hit h) = [] \<and> e_text (entry_of_hit h) = [])
   \<and> (\<forall>f. h_fields h = Some f \<and> f_category f = None \<longrightarrow> e_category (entry_of_hit h) = [])
   \<and> (\<forall>f. h_fields h = Some f \<and> f_chunk_text f = None \<longrightarrow> e_text (entry_of_hit h) = [])
   \<and> (\<forall>i. h_id h = Some i \<longrightarrow> e_id (entry_of_hit h) = i)
   \<and> (\<forall>x. h_score h = Some x \<longrightarrow> e_score (entry_of_hit h) = round2 x)
   \<and> (\<forall>f c. h_fields h = Some f \<and> f_category f = Some c \<longrightarrow> e_category (entry_of_hit h) = c)
   \<and> (\<forall>f t. h_fields h = Some f \<and> f_chunk_text f = Some t \<longrightarrow> e_text (entry_of_hit h) = t)"
  by (auto simp: search_similar_all entry_of_hit_def get_or_def round2_zero)

theorem missing_fields_default_witness:
  "search nocat_world (clock s0) ''cv-luis'' ''hola'' 3 = Inr (Hits (map Hit [nocat_hit]))
   \<and> h_fields nocat_hit = Some \<lparr>f_category = None, f_chunk_text = Some ''Python y SQL''\<rparr>
   \<and> e_category (entry_of_hit nocat_hit) = []
   \<and> fst (search_similar nocat_world ''cv-luis'' ''hola'' 3 False s0)
       = [\<lparr>e_id = ''cv_chunk_1'', e_score = 9 / 10, e_category = [], e_text = ''Python y SQL''\<rparr>]
   \<and> entry_of_hit \<lparr>h_id = None, h_score = None, h_fields = None\<rparr>
       = \<lparr>e_id = [], e_score = 0, e_category = [], e_text = []\<rparr>"
proof -
  have a: "search nocat_world (clock s0) ''cv-luis'' ''hola'' 3 = Inr (Hits (map Hit [nocat_hit]))"
    by (simp add: nocat_world_def demo_world_def)
  have b: "h_fields nocat_hit = Some \<lparr>f_category = None, f_chunk_text = Some ''Python y SQL''\<rparr>"
    by (simp add: nocat_hit_def)
  have b': "h_fields nocat_hit = Some \<lparr>f_category = None, f_chunk_text = Some ''Python y SQL''\<rparr>
            \<and> f_category \<lparr>f_category = None, f_chunk_text = Some ''Python y SQL''\<rparr> = None"
    using b by simp
  have c: "e_category (entry_of_hit nocat_hit) = []"
    by (rule missing_fields_default[THEN conjunct2, THEN conjunct2, THEN conjunct2, THEN conjunct2,
          THEN conjunct1, rule_format, OF b'])
  have d: "fst (search_similar nocat_world ''cv-luis'' ''hola'' 3 False s0) = map entry_of_hit [nocat_hit]"
    by (rule missing_fields_default[THEN conjunct1, rule_format, OF a])
  have e1: "entry_of_hit nocat_hit =
      \<lparr>e_id = ''cv_chunk_1'', e_score = 9 / 10, e_category = [], e_text = ''Python y SQL''\<rparr>"
    by (simp add: entry_of_hit_def nocat_hit_def get_or_def round2_demo)
  have e2: "entry_of_hit \<lparr>h_id = None, h_score = None, h_fields = None\<rparr>
       = \<lparr>e_id = [], e_score = 0, e_category = [], e_text = []\<rparr>"
    by (simp add: entry_of_hit_def get_or_def round2_zero)
  from a b c d e1 e2 show ?thesis by simp
qed

theorem missing_fields_default_counterexample:
  "fst (vdb_search_similar nocat_world INDEX_NAME ''hola'' 3 True s0) = Inl (KeyError ''category'')"
  by (simp add: vdb_search_similar_def nocat_world_def demo_world_def nocat_hit_def format_hit_def)

section \<open>The Responder on a remote failure\<close>

text \<open>
  C2, as the code has it. When the completion request of the agent's Responder
  (\<open>LLMResponderTool.run\<close>) fails, the Responder logs the failure at level ERROR and
  returns the fixed apology instead of raising, and \<open>CVChatAgent.chat\<close> returns that
  apology. The base script's \<open>ChatSession.chat\<close> has no handler: a failure of its
  completion request is raised to the caller, which the counterexample shows.
\<close>

theorem responder_request_failure:
  "(complete_stream w (clock s) msgs = Inl e \<longrightarrow>
      LLMResponderTool_run w msgs s =
        (Inr apology, emit (Log ERROR (RespondLLMFailed e)) (calling (CompleteStream msgs) s)))
   \<and> (CVSelectorTool_run w m s = (target, s1) \<and> target \<noteq> [] \<and>
      CVRetrieverTool_run w target m 3 s1 = (context_docs, s2) \<and>
      complete_stream w (clock s2)
        (messages s @ [\<lparr>role = ''system'', content = system_msg\<rparr>,
                       \<lparr>role = ''user'', content = user_msg m target context_docs\<rparr>]) = Inl e \<longrightarrow>
      fst (CVChatAgent_chat w m s) = Inr apology)
   \<and> (vdb_search_similar w INDEX_NAME m 3 False s = (Inr docs, s1') \<and>
      complete_stream w (clock s1')
        (messages s @ [\<lparr>role = ''user'', content = full_user_message m docs\<rparr>]) = Inl e \<longrightarrow>
      fst (ChatSession_chat w m s) = Inl e)"
proof (intro conjI impI)
  assume "complete_stream w (clock s) msgs = Inl e"
  then show "LLMResponderTool_run w msgs s =
        (Inr apology, emit (Log ERROR (RespondLLMFailed e)) (calling (CompleteStream msgs) s))"
    by (simp add: LLMResponderTool_run_def)
next
  assume "CVSelectorTool_run w m s = (target, s1) \<and> target \<noteq> [] \<and>
      CVRetrieverTool_run w target m 3 s1 = (context_docs, s2) \<and>
      complete_stream w (clock s2)
        (messages s @ [\<lparr>role = ''system'', content = system_msg\<rparr>,
                       \<lparr>role = ''user'', content = user_msg m target context_docs\<rparr>]) = Inl e"
  then show "fst (CVChatAgent_chat w m s) = Inr apology"
    using agent_chat_request_fails[of w m s target s1 context_docs s2 e] by blast
next
  assume "vdb_search_similar w INDEX_NAME m 3 False s = (Inr docs, s1') \<and>
      complete_stream w (clock s1')
        (messages s @ [\<lparr>role = ''user'', content = full_user_message m docs\<rparr>]) = Inl e"
  then show "fst (ChatSession_chat w m s) = Inl e"
    using session_chat_request_fails[of w m s docs s1' e] by blast
qed

theorem responder_request_failure_counterexample:
  "fst (ChatSession_chat down_world ''hola'' s0) = Inl (RemoteError ''503 Service Unavailable'')"
  by (rule down_session_raises)

theorem responder_request_failure_witness:
  "complete_stream down_world (clock s0) [] = Inl (RemoteError ''503 Service Unavailable'')
   \<and> LLMResponderTool_run down_world [] s0 =
       (Inr apology,
        \<lparr>messages = [], clock = 1,
           trace = [Call (CompleteStream []), Log ERROR (RespondLLMFailed (RemoteError ''503 Service Unavailable''))]\<rparr>)
   \<and> fst (CVChatAgent_chat down_world ''hola'' s0) = Inr apology
   \<and> fst (ChatSession_chat down_world ''hola'' s0) = Inl (RemoteError ''503 Service Unavailable'')"
proof -
  have a: "LLMResponderTool_run down_world [] s0 =
       (Inr apology, emit (Log ERROR (RespondLLMFailed (RemoteError ''503 Service Unavailable'')))
                       (calling (CompleteStream []) s0))"
    using responder_request_failure[where w = down_world and s = s0 and msgs = "[]"] down_stream by blast
  obtain target s1 where sel: "CVSelectorTool_run down_world ''hola'' s0 = (target, s1)"
    by (cases "CVSelectorTool_run down_world ''hola'' s0")
  have t: "target \<noteq> []" using down_selects[of "''hola''" s0] sel by auto
  obtain docs s2 where ret: "CVRetrieverTool_run down_world target ''hola'' 3 s1 = (docs, s2)"
    by (cases "CVRetrieverTool_run down_world target ''hola'' 3 s1")
  have b: "fst (CVChatAgent_chat down_world ''hola'' s0) = Inr apology"
    using responder_request_failure[where w = down_world and s = s0 and m = "''hola''" and target = target
        and ?s1.0 = s1 and context_docs = docs and ?s2.0 = s2] sel t ret down_stream by blast
  obtain vdocs where "fst (vdb_search_similar down_world INDEX_NAME ''hola'' 3 False s0) = Inr vdocs"
    using down_vdb_returns by blast
  then obtain v1 where vs: "vdb_search_similar down_world INDEX_NAME ''hola'' 3 False s0 = (Inr vdocs, v1)"
    by (cases "vdb_search_similar down_world INDEX_NAME ''hola'' 3 False s0") simp
  have c: "fst (ChatSession_chat down_world ''hola'' s0) = Inl (RemoteError ''503 Service Unavailable'')"
    using responder_request_failure[where w = down_world and s = s0 and m = "''hola''" and docs = vdocs
        and ?s1' = v1] vs down_stream by blast
  from a b c down_stream show ?thesis
    by (simp add: s0_def emit_def calling_def)
qed

section \<open>The text that reaches the Responder\<close>




section \<open>Errors in steady state\<close>




section \<open>The exit signal of the search script\<close>

text \<open>
  C10, as the code has it. In the loop of \<open>vector_db.py\<close> an input line that is empty or
  holds only white space ends the loop (and the script, with status 0). Any other line,
  the words \<open>exit\<close> and \<open>quit\<close> among them, is stripped and handed to \<open>search_similar\<close>,
  which first asks for the statistics of the index and, when it gets them, issues the
  search for the stripped line with \<open>top_k = 3\<close>. When \<open>search_similar\<close> returns (the
  services answer and every hit has all its fields) the loop goes on with the next line,
  so that with services that answer it stops exactly where \<open>search_stop\<close> says: at the
  first blank line, at an interrupt or at the end of the input. When \<open>search_similar\<close>
  raises (the statistics or the search fail, or a hit lacks a field) the loop ends and
  the script exits with status 1. The counterexample is a non-empty line after which the
  loop does not continue, and one for which no search is issued.
\<close>

theorem blank_line_ends_search_loop:
  "((\<forall>c \<in> set l. isspace c) \<longrightarrow>
      search_loop w index (Line l # rest) s =
        (Break, rest, emit (Log INFO Leaving) (emit (Print search_prompt) s))
      \<and> vdb_finish (search_loop w index (Line l # rest) s) =
        (0, rest, emit (Log INFO Leaving) (emit (Print search_prompt) s)))
   \<and> (\<not> (\<forall>c \<in> set l. isspace c) \<longrightarrow>
      search_loop w index (Line l # rest) s =
        (case vdb_search_similar w index (strip l) 3 True (emit (Print search_prompt) s) of
           (Inl e, s') \<Rightarrow> (Raise e, rest, s')
         | (Inr data, s') \<Rightarrow> search_loop w index rest s')
      \<and> (\<exists>evs. trace (snd (vdb_search_similar w index (strip l) 3 True (emit (Print search_prompt) s)))
                 = trace s @ Print search_prompt # Call (DescribeStats index) # evs))
   \<and> (\<not> (\<forall>c \<in> set l. isspace c) \<and> describe_index_stats w (clock s) index = Inr stats \<longrightarrow>
      (\<exists>evs. trace (snd (vdb_search_similar w index (strip l) 3 True (emit (Print search_prompt) s)))
               = trace s @ [Print search_prompt, Call (DescribeStats index), Log INFO (IndexStats stats),
                            Call (Search index (strip l) 3)] @ evs))
   \<and> (\<not> (\<forall>c \<in> set l. isspace c) \<and>
      vdb_search_similar w index (strip l) 3 True (emit (Print search_prompt) s) = (Inr data, s') \<longrightarrow>
      search_loop w index (Line l # rest) s = search_loop w index rest s')
   \<and> (\<not> (\<forall>c \<in> set l. isspace c) \<and>
      vdb_search_similar w index (strip l) 3 True (emit (Print search_prompt) s) = (Inl e, s') \<longrightarrow>
      search_loop w index (Line l # rest) s = (Raise e, rest, s')
      \<and> vdb_finish (search_loop w index (Line l # rest) s) = (1, rest, emit (Log ERROR (Unexpected e)) s'))
   \<and> (describe_index_stats w (clock s) index = Inr stats \<and>
      search w (Suc (clock s)) index txt k = Inr (Hits (map Hit hs)) \<and>
      map (format_hit w) hs = map Inr lines \<longrightarrow>
      fst (vdb_search_similar w index txt k debug s) = Inr lines)
   \<and> (describe_index_stats w (clock s) index = Inl e \<longrightarrow>
      vdb_search_similar w index txt k debug s = (Inl e, calling (DescribeStats index) s))
   \<and> (describe_index_stats w (clock s) index = Inr stats \<and> search w (Suc (clock s)) index txt k = Inl e \<longrightarrow>
      fst (vdb_search_similar w index txt k debug s) = Inl e)
   \<and> (describe_index_stats w (clock s) index = Inr stats \<and>
      search w (Suc (clock s)) index txt k = Inr (Hits (map Hit hs @ Hit h # later)) \<and>
      map (format_hit w) hs = map Inr lines \<and> format_hit w h = Inl e \<longrightarrow>
      fst (vdb_search_similar w index txt k debug s) = Inl e)
   \<and> ((\<forall>t index. \<exists>stats. describe_index_stats w t index = Inr stats) \<and>
      (\<forall>t index q k. \<exists>hs lines. search w t index q k = Inr (Hits (map Hit hs))
                                \<and> map (format_hit w) hs = map Inr lines) \<longrightarrow>
      (fst (search_loop w index inputs s), fst (snd (search_loop w index inputs s))) = search_stop inputs)"
proof -
  have b1: "(\<forall>c \<in> set l. isspace c) \<longrightarrow>
      search_loop w index (Line l # rest) s =
        (Break, rest, emit (Log INFO Leaving) (emit (Print search_prompt) s))
      \<and> vdb_finish (search_loop w index (Line l # rest) s) =
        (0, rest, emit (Log INFO Leaving) (emit (Print search_prompt) s))"
    by (simp add: strip_empty_iff[symmetric] vdb_finish_def)
  have b2: "\<not> (\<forall>c \<in> set l. isspace c) \<longrightarrow>
      search_loop w index (Line l # rest) s =
        (case vdb_search_similar w index (strip l) 3 True (emit (Print search_prompt) s) of
           (Inl e, s') \<Rightarrow> (Raise e, rest, s')
         | (Inr data, s') \<Rightarrow> search_loop w index rest s')
      \<and> (\<exists>evs. trace (snd (vdb_search_similar w index (strip l) 3 True (emit (Print search_prompt) s)))
                 = trace s @ Print search_prompt # Call (DescribeStats index) # evs)"
    using vdb_search_calls[of w index "strip l" 3 True "emit (Print search_prompt) s"]
    by (simp add: strip_empty_iff[symmetric] emit_def)
  have b3: "\<not> (\<forall>c \<in> set l. isspace c) \<and> describe_index_stats w (clock s) index = Inr stats \<longrightarrow>
      (\<exists>evs. trace (snd (vdb_search_similar w index (strip l) 3 True (emit (Print search_prompt) s)))
               = trace s @ [Print search_prompt, Call (DescribeStats index), Log INFO (IndexStats stats),
                            Call (Search index (strip l) 3)] @ evs)"
  proof
    assume a: "\<not> (\<forall>c \<in> set l. isspace c) \<and> describe_index_stats w (clock s) index = Inr stats"
    then have ds: "describe_index_stats w (clock (emit (Print search_prompt) s)) index = Inr stats"
      by (simp add: emit_def)
    from vdb_search_issues_search[OF ds, of "strip l" 3 True]
    show "\<exists>evs. trace (snd (vdb_search_similar w index (strip l) 3 True (emit (Print search_prompt) s)))
               = trace s @ [Print search_prompt, Call (DescribeStats index), Log INFO (IndexStats stats),
                            Call (Search index (strip l) 3)] @ evs"
      by (simp add: emit_def)
  qed
  have b4: "\<not> (\<forall>c \<in> set l. isspace c) \<and>
      vdb_search_similar w index (strip l) 3 True (emit (Print search_prompt) s) = (Inr data, s') \<longrightarrow>
      search_loop w index (Line l # rest) s = search_loop w index rest s'"
    by (simp add: strip_empty_iff[symmetric])
  have b5: "\<not> (\<forall>c \<in> set l. isspace c) \<and>
      vdb_search_similar w index (strip l) 3 True (emit (Print search_prompt) s) = (Inl e, s') \<longrightarrow>
      search_loop w index (Line l # rest) s = (Raise e, rest, s')
      \<and> vdb_finish (search_loop w index (Line l # rest) s) = (1, rest, emit (Log ERROR (Unexpected e)) s')"
    by (simp add: strip_empty_iff[symmetric] vdb_finish_def)
  have b6: "describe_index_stats w (clock s) index = Inr stats \<and>
      search w (Suc (clock s)) index txt k = Inr (Hits (map Hit hs)) \<and>
      map (format_hit w) hs = map Inr lines \<longrightarrow>
      fst (vdb_search_similar w index txt k debug s) = Inr lines"
    using vdb_search_returns[of w s index stats "txt" k hs lines debug] by blast
  note b789 = vdb_search_raises[of w s index e "txt" k debug stats hs h later lines]
  have b10: "(\<forall>t index. \<exists>stats. describe_index_stats w t index = Inr stats) \<and>
      (\<forall>t index q k. \<exists>hs lines. search w t index q k = Inr (Hits (map Hit hs))
                                \<and> map (format_hit w) hs = map Inr lines) \<longrightarrow>
      (fst (search_loop w index inputs s), fst (snd (search_loop w index inputs s))) = search_stop inputs"
  proof
    assume a: "(\<forall>t index. \<exists>stats. describe_index_stats w t index = Inr stats) \<and>
      (\<forall>t index q k. \<exists>hs lines. search w t index q k = Inr (Hits (map Hit hs))
                                \<and> map (format_hit w) hs = map Inr lines)"
    then have d: "\<And>t index. \<exists>stats. describe_index_stats w t index = Inr stats"
      and h: "\<And>t index q k. \<exists>hs lines. search w t index q k = Inr (Hits (map Hit hs))
                                       \<and> map (format_hit w) hs = map Inr lines"
      by blast+
    show "(fst (search_loop w index inputs s), fst (snd (search_loop w index inputs s))) = search_stop inputs"
      using d h by (rule search_loop_stop)
  qed
  show ?thesis
    by (intro conjI b1 b2 b3 b4 b5 b6 b789[THEN conjunct1] b789[THEN conjunct2, THEN conjunct1]
        b789[THEN conjunct2, THEN conjunct2] b10)
qed

theorem blank_line_ends_search_loop_counterexample:
  "fst (vector_db_main nocat_world [Line ''hola'', Line ''otra''] s0) = 1
   \<and> fst (snd (vector_db_main nocat_world [Line ''hola'', Line ''otra''] s0)) = [Line ''otra'']
   \<and> fst (search_loop nocat_world INDEX_NAME [Line ''hola'', Line ''otra''] s0) = Raise (KeyError ''category'')
   \<and> search_loop nostats_world INDEX_NAME [Line ''hola'', Line ''otra''] s0 =
       (Raise (RemoteError ''timeout''), [Line ''otra''],
        \<lparr>messages = [], clock = 1, trace = [Print search_prompt, Call (DescribeStats INDEX_NAME)]\<rparr>)"
  by (simp add: vector_db_main_def ensure_index_def load_data_def vdb_finish_def vdb_search_similar_def
      format_hit_def nocat_world_def nostats_world_def demo_world_def nocat_hit_def INDEX_NAME_def
      strip_def isspace_def calling_def emit_def s0_def)

theorem blank_line_ends_search_loop_witness:
  "search_loop demo_world INDEX_NAME [Line ''  '', Line ''hola''] s0 =
     (Break, [Line ''hola''], emit (Log INFO Leaving) (emit (Print search_prompt) s0))
   \<and> vdb_finish (search_loop demo_world INDEX_NAME [Line ''  '', Line ''hola''] s0) =
     (0, [Line ''hola''], emit (Log INFO Leaving) (emit (Print search_prompt) s0))
   \<and> (\<exists>evs. trace (snd (vdb_search_similar demo_world INDEX_NAME ''exit'' 3 True (emit (Print search_prompt) s0)))
              = trace s0 @ [Print search_prompt, Call (DescribeStats INDEX_NAME), Log INFO (IndexStats ''{}''),
                            Call (Search INDEX_NAME ''exit'' 3)] @ evs)
   \<and> (fst (search_loop demo_world INDEX_NAME [Line ''exit'', Line ''hola'', Line ''  '', Line ''x''] s0),
       fst (snd (search_loop demo_world INDEX_NAME [Line ''exit'', Line ''hola'', Line ''  '', Line ''x''] s0)))
       = (Break, [Line ''x''])
   \<and> (\<exists>s'. search_loop nocat_world INDEX_NAME [Line ''hola'', Line ''otra''] s0
            = (Raise (KeyError ''category''), [Line ''otra''], s')
          \<and> vdb_finish (search_loop nocat_world INDEX_NAME [Line ''hola'', Line ''otra''] s0)
            = (1, [Line ''otra''], emit (Log ERROR (Unexpected (KeyError ''category''))) s'))"
proof -
  note a = blank_line_ends_search_loop[THEN conjunct1, THEN mp, OF blank_spaces,
          of demo_world INDEX_NAME "[Line ''hola'']" s0]
  have h3: "\<not> (\<forall>c \<in> set ''exit''. isspace c) \<and> describe_index_stats demo_world (clock s0) INDEX_NAME = Inr ''{}''"
    using exit_not_blank demo_stats by blast
  note b = blank_line_ends_search_loop[THEN conjunct2, THEN conjunct2, THEN conjunct1, THEN mp, OF h3,
          unfolded strip_exit]
  note c = blank_line_ends_search_loop[THEN conjunct2, THEN conjunct2, THEN conjunct2, THEN conjunct2,
          THEN conjunct2, THEN conjunct2, THEN conjunct2, THEN conjunct2, THEN conjunct2,
          THEN mp, OF demo_answers,
          of INDEX_NAME "[Line ''exit'', Line ''hola'', Line ''  '', Line ''x'']" s0,
          unfolded search_stop_example]
  obtain s' where v: "vdb_search_similar nocat_world INDEX_NAME (strip ''hola'') 3 True (emit (Print search_prompt) s0)
      = (Inl (KeyError ''category''), s')"
    using nocat_search_raises[of INDEX_NAME "emit (Print search_prompt) s0"]
    by (cases "vdb_search_similar nocat_world INDEX_NAME (strip ''hola'') 3 True (emit (Print search_prompt) s0)")
       (simp add: strip_hola)
  have h5: "\<not> (\<forall>c \<in> set ''hola''. isspace c) \<and>
      vdb_search_similar nocat_world INDEX_NAME (strip ''hola'') 3 True (emit (Print search_prompt) s0)
        = (Inl (KeyError ''category''), s')"
    using hola_not_blank v by blast
  note d = blank_line_ends_search_loop[THEN conjunct2, THEN conjunct2, THEN conjunct2, THEN conjunct2,
          THEN conjunct1, THEN mp, OF h5, of "[Line ''otra'']"]
  from a b c d show ?thesis by blast
qed

end
